theory Spec2Isabelle
  imports Main
begin

section \<open>Python values shared by the three modules\<close>

text \<open>
  Exceptions are values. The constructors name the Python exceptions the modelled code can
  raise by itself; \<open>LibraryError\<close> stands for any exception raised inside an external
  library call (pandas, scikit-learn, the validators of \<^verbatim>\<open>hyperlearn.utils\<close>).
\<close>

datatype py_error =
    AttributeError string
  | IndexError
  | OSError string
  | LibraryError string

subsection \<open>Decimal rendering of integers: Python's \<^verbatim>\<open>str(int)\<close>\<close>

definition digit_char :: "nat \<Rightarrow> char" where
  "digit_char d = ''0123456789'' ! d"

function str_nat :: "nat \<Rightarrow> string" where
  "str_nat n = (if n < 10 then [digit_char n] else str_nat (n div 10) @ [digit_char (n mod 10)])"
  by pat_completeness auto
termination
  by (relation "measure id") auto

definition str_int :: "int \<Rightarrow> string" where
  "str_int i = (if i < 0 then ''-'' @ str_nat (nat (- i)) else str_nat (nat i))"

subsection \<open>A \<^verbatim>\<open>for\<close> loop whose body may raise\<close>

text \<open>
  The body takes an item and the state and returns the exception it raised, if any, with
  the state at that moment. The loop stops at the first exception.
\<close>

fun for_each ::
  "('a \<Rightarrow> 'st \<Rightarrow> py_error option \<times> 'st) \<Rightarrow> 'a list \<Rightarrow> 'st \<Rightarrow> py_error option \<times> 'st" where
  "for_each body [] st = (None, st)"
| "for_each body (x # xs) st =
     (case body x st of
        (Some e, st') \<Rightarrow> (Some e, st')
      | (None, st') \<Rightarrow> for_each body xs st')"

text \<open>\<^verbatim>\<open>enumerate(xs)\<close> and \<^verbatim>\<open>xs[i]\<close> for an index that is not negative.\<close>

definition enumerate_list :: "'a list \<Rightarrow> (nat \<times> 'a) list" where
  "enumerate_list xs = zip [0..<length xs] xs"

definition py_index :: "'a list \<Rightarrow> nat \<Rightarrow> py_error + 'a" where
  "py_index xs i = (if i < length xs then Inr (xs ! i) else Inl IndexError)"

section \<open>imbtools/evaluation.py: \<^verbatim>\<open>count_elements\<close> and the random states\<close>

subsection \<open>\<^verbatim>\<open>count_elements\<close>\<close>

text \<open>
  The loop of \<^verbatim>\<open>count_elements\<close> carries the dictionary \<^verbatim>\<open>elements_map\<close> and the list
  \<^verbatim>\<open>elements_modified\<close>. The elements are strings (class names), since the code
  concatenates them with \<^verbatim>\<open>str(...)\<close>.
\<close>

fun count_elements_loop ::
  "(string \<rightharpoonup> int) \<Rightarrow> string list \<Rightarrow> string list \<Rightarrow> string list" where
  "count_elements_loop elements_map elements_modified [] = elements_modified"
| "count_elements_loop elements_map elements_modified (element # elements) =
     (case elements_map element of
        Some c \<Rightarrow>
          count_elements_loop (elements_map(element \<mapsto> c + 1))
            (elements_modified @ [element @ str_int (c + 1)]) elements
      | None \<Rightarrow>
          count_elements_loop (elements_map(element \<mapsto> 1))
            (elements_modified @ [element]) elements)"

definition count_elements :: "string list \<Rightarrow> string list" where
  "count_elements elements = count_elements_loop Map.empty [] elements"

text \<open>
  The renaming rule in closed form, for comparison with the loop: the element at position
  \<open>i\<close> is kept when it is the first occurrence of its name, and otherwise gets the number
  of occurrences seen so far (itself included) appended.
\<close>

definition occurrence :: "string list \<Rightarrow> nat \<Rightarrow> nat" where
  "occurrence elements i = count_list (take (Suc i) elements) (elements ! i)"

definition renamed :: "string \<Rightarrow> nat \<Rightarrow> string" where
  "renamed element k = (if k \<le> 1 then element else element @ str_int (int k))"

subsection \<open>Random states of \<^verbatim>\<open>BinaryExperiment._initialize_parameters\<close> (line 56)\<close>

text \<open>Python's \<^verbatim>\<open>range(n)\<close>: empty for a negative \<open>n\<close>.\<close>

definition py_range :: "int \<Rightarrow> int list" where
  "py_range n = map int [0..<nat n]"

text \<open>Python's \<^verbatim>\<open>[x] * n\<close>: empty for a negative \<open>n\<close>.\<close>

definition py_repeat :: "'a \<Rightarrow> int \<Rightarrow> 'a list" where
  "py_repeat x n = replicate (nat n) x"

definition initialize_random_states :: "int option \<Rightarrow> int \<Rightarrow> int option list" where
  "initialize_random_states random_state experiment_repetitions =
     (case random_state of
        Some s \<Rightarrow> map (\<lambda>index. Some (s * index)) (py_range experiment_repetitions)
      | None \<Rightarrow> py_repeat None experiment_repetitions)"

section \<open>hyperlearn/experiment.py\<close>

subsection \<open>\<^verbatim>\<open>read_csv_dir\<close>\<close>

text \<open>
  The file system and pandas are outside the program: \<open>listdir\<close> gives the names in a
  directory or raises, \<open>read_csv\<close> gives the columns of the table stored at a path or
  raises. A table is the list of its columns, each column an opaque value.
\<close>

record 'o file_system =
  chdir :: "string \<Rightarrow> py_error option"
  listdir :: "string \<Rightarrow> py_error + string list"
  read_csv :: "string \<Rightarrow> py_error + 'o list"

definition newline :: char where
  "newline = CHR 0x0A"

text \<open>
  \<^verbatim>\<open>match('^.+\.csv$', csv_file)\<close>: one or more characters other than a newline, then the
  literal \<^verbatim>\<open>.csv\<close>, then the end of the string, which \<^verbatim>\<open>$\<close> also finds just before one
  final newline. The match is anchored at both ends, so the prefix is everything before the
  last four characters.
\<close>

definition match_csv :: "string \<Rightarrow> bool" where
  "match_csv csv_file =
     (let t = (if csv_file \<noteq> [] \<and> last csv_file = newline then butlast csv_file else csv_file)
      in 4 < length t \<and> drop (length t - 4) t = ''.csv'' \<and> newline \<notin> set (take (length t - 4) t))"

text \<open>
  \<^verbatim>\<open>sub(".csv", "", csv_file)\<close>: the dot of the pattern is not escaped, so every
  non-overlapping occurrence, from the left, of any character but a newline followed by
  \<^verbatim>\<open>csv\<close> is removed.
\<close>

fun sub_csv :: "string \<Rightarrow> string" where
  "sub_csv (a # b # c # d # rest) =
     (if a \<noteq> newline \<and> [b, c, d] = ''csv'' then sub_csv rest else a # sub_csv (b # c # d # rest))"
| "sub_csv s = s"

text \<open>\<^verbatim>\<open>os.path.join\<close> of two components (POSIX).\<close>

definition join :: "string \<Rightarrow> string \<Rightarrow> string" where
  "join a b =
     (if b \<noteq> [] \<and> hd b = CHR ''/'' then b
      else if a = [] \<or> last a = CHR ''/'' then a @ b
      else a @ ''/'' @ b)"

text \<open>
  \<^verbatim>\<open>X, y = dataset.iloc[:, :-1], dataset.iloc[:, -1]\<close>: all columns but the last, and the
  last one; a table without columns has no last column.
\<close>

definition split_X_y :: "'o list \<Rightarrow> py_error + ('o list \<times> 'o)" where
  "split_X_y dataset = (if dataset = [] then Inl IndexError else Inr (butlast dataset, last dataset))"

fun read_csv_files ::
  "'o file_system \<Rightarrow> string \<Rightarrow> (string \<times> 'o list \<times> 'o) list \<Rightarrow> string list \<Rightarrow>
   py_error + (string \<times> 'o list \<times> 'o) list" where
  "read_csv_files fs dirpath datasets [] = Inr datasets"
| "read_csv_files fs dirpath datasets (csv_file # csv_files) =
     (case read_csv fs (join dirpath csv_file) of
        Inl e \<Rightarrow> Inl e
      | Inr dataset \<Rightarrow>
          (case split_X_y dataset of
             Inl e \<Rightarrow> Inl e
           | Inr (X, y) \<Rightarrow>
               read_csv_files fs dirpath (datasets @ [(sub_csv csv_file, (X, y))]) csv_files))"

definition read_csv_dir ::
  "'o file_system \<Rightarrow> string \<Rightarrow> py_error + (string \<times> 'o list \<times> 'o) list" where
  "read_csv_dir fs dirpath =
     (case listdir fs dirpath of
        Inl e \<Rightarrow> Inl e
      | Inr names \<Rightarrow> read_csv_files fs dirpath [] (filter match_csv names))"

subsection \<open>The objects of an experiment\<close>

text \<open>
  Values of the libraries (estimators, parameter grids, scoring specifications, targets,
  fitted searches) are opaque: type \<open>'o\<close>. Feature matrices have type \<open>'x\<close>, the entries
  of the estimator list type \<open>'s\<close>, and \<open>'w\<close> is the ambient randomness an unseeded library
  call draws from.

  A cross-validation splitter is an object with the attributes \<^verbatim>\<open>shuffle\<close> and
  \<^verbatim>\<open>random_state\<close>, which \<^verbatim>\<open>run\<close> assigns, and everything else it holds.
\<close>

record 'o splitter =
  splitter_params :: 'o
  shuffle :: bool
  split_random_state :: "int option"

text \<open>
  The \<^verbatim>\<open>cv\<close> parameter, as the docstring lists it: a cross-validation generator object, or
  anything else (\<^verbatim>\<open>None\<close>, a number of folds, an iterable of splits) from which
  \<^verbatim>\<open>check_cv\<close> builds a new splitter.
\<close>

datatype 'o cv_spec = CvObject "'o splitter" | CvOther 'o

text \<open>The arguments of \<^verbatim>\<open>GridSearchCV(estimator, param_grid, scoring, cv=, refit=, n_jobs=)\<close>.\<close>

record 'o grid_search =
  gs_estimator :: 'o
  gs_param_grid :: 'o
  gs_scoring :: 'o
  gs_cv :: "'o splitter"
  gs_refit :: bool
  gs_n_jobs :: int

text \<open>
  The functions \<^verbatim>\<open>run\<close> calls and this repository's sources do not hold: the validators of
  \<^verbatim>\<open>hyperlearn.utils\<close> and scikit-learn. Each is a parameter, and each may raise.
  \<open>check_cv_new\<close> is \<^verbatim>\<open>check_cv\<close> on a \<^verbatim>\<open>cv\<close> that is not a splitter object; \<open>fit\<close> is
  \<^verbatim>\<open>GridSearchCV.fit\<close>, which also sees the ambient randomness.
\<close>

record ('s, 'x, 'o, 'w) library =
  check_datasets :: "(string \<times> 'x \<times> 'o) list \<Rightarrow> py_error + (string \<times> 'x \<times> 'o) list"
  check_estimators :: "'s list \<Rightarrow> py_error + 'o list"
  check_param_grids :: "'s list \<Rightarrow> py_error + 'o list"
  check_random_states :: "int option \<Rightarrow> int \<Rightarrow> py_error + int option list"
  check_cv_new :: "'o \<Rightarrow> 'o \<Rightarrow> bool \<Rightarrow> py_error + 'o splitter"
  is_classifier :: "'o \<Rightarrow> bool"
  fit :: "'o grid_search \<Rightarrow> 'x \<Rightarrow> 'o \<Rightarrow> 'w \<Rightarrow> py_error + 'o"

text \<open>
  The attributes of an \<^verbatim>\<open>ExtendedExperiment\<close>. \<open>datasets\<close> is \<open>None\<close> once \<^verbatim>\<open>save\<close> has
  deleted the attribute. The attributes \<^verbatim>\<open>estimators_\<close>, \<^verbatim>\<open>param_grids_\<close>, \<^verbatim>\<open>random_states_\<close>
  and \<^verbatim>\<open>results_\<close> carry the suffix \<open>_attr\<close> here (a name cannot end with an underscore)
  and are \<open>None\<close> until \<^verbatim>\<open>run\<close> assigns them. An entry of \<open>results_attr\<close> is the dataset
  name with the fitted search.
  \<open>random_state\<close> is an integer or \<^verbatim>\<open>None\<close>.
\<close>

record ('s, 'x, 'o) extended_experiment =
  scoring :: 'o
  cv :: "'o cv_spec"
  n_jobs :: int
  estimators :: "'s list"
  datasets :: "(string \<times> 'x \<times> 'o) list option"
  experiment_repetitions :: int
  random_state :: "int option"
  estimators_attr :: "'o list option"
  param_grids_attr :: "'o list option"
  random_states_attr :: "int option list option"
  results_attr :: "(string \<times> 'o) list option"

text \<open>
  What \<^verbatim>\<open>run\<close> does outside the experiment object: the action given to
  \<^verbatim>\<open>filterwarnings\<close>, the progress bar (its \<^verbatim>\<open>max_value\<close> and the last value passed to
  \<^verbatim>\<open>update\<close>), and the calls of \<^verbatim>\<open>gscv.fit\<close> in the order they were made.
\<close>

record ('x, 'o, 'w) fit_call =
  call_dataset_name :: string
  call_gscv :: "'o grid_search"
  call_X :: 'x
  call_y :: 'o
  call_ambient :: 'w

record ('x, 'o, 'w) trace =
  warnings_action :: string
  max_value :: "nat option"
  progress :: nat
  fit_calls :: "('x, 'o, 'w) fit_call list"

subsection \<open>\<^verbatim>\<open>ExtendedExperiment.run\<close>\<close>

text \<open>
  \<^verbatim>\<open>itertools.product\<close> of three iterables, as the library documents it: starting from
  the one empty tuple, each pool in turn extends every partial tuple by every element of
  the pool.
\<close>

definition product3 :: "'a list \<Rightarrow> 'b list \<Rightarrow> 'c list \<Rightarrow> ('a \<times> 'b \<times> 'c) list" where
  "product3 pool1 pool2 pool3 =
     (let result1 = concat (map (\<lambda>u. map (\<lambda>a. a) pool1) [()]);
          result2 = concat (map (\<lambda>a. map (\<lambda>b. (a, b)) pool2) result1);
          result3 = concat (map (\<lambda>(a, b). map (\<lambda>c. (a, b, c)) pool3) result2)
      in result3)"

text \<open>
  \<^verbatim>\<open>check_cv(self.cv, y, is_classifier(estimator))\<close>: scikit-learn hands a splitter object
  back as it is (the same object), and builds a new splitter otherwise.
\<close>

definition check_cv ::
  "('s, 'x, 'o, 'w) library \<Rightarrow> 'o cv_spec \<Rightarrow> 'o \<Rightarrow> bool \<Rightarrow> py_error + 'o splitter" where
  "check_cv lib cv_arg y classifier =
     (case cv_arg of
        CvObject sp \<Rightarrow> Inr sp
      | CvOther c \<Rightarrow> check_cv_new lib c y classifier)"

text \<open>
  The two attribute assignments write through to \<^verbatim>\<open>self.cv\<close> when \<^verbatim>\<open>check_cv\<close> has
  returned that very object.
\<close>

definition assign_cv :: "'o cv_spec \<Rightarrow> 'o splitter \<Rightarrow> 'o cv_spec" where
  "assign_cv cv_arg sp = (case cv_arg of CvObject _ \<Rightarrow> CvObject sp | CvOther c \<Rightarrow> CvOther c)"

text \<open>The state of the loop: the object, the observations, and \<^verbatim>\<open>iterations\<close>.\<close>

record ('s, 'x, 'o, 'w) run_state =
  self :: "('s, 'x, 'o) extended_experiment"
  observed :: "('x, 'o, 'w) trace"
  iterations :: nat

text \<open>
  One pass through the body of the loop (lines 135 to 142). The result is the exception
  raised, if any, with the state at that moment. \<open>ambient i\<close> is the ambient randomness
  at the \<open>i\<close>-th pass.
\<close>

definition run_body ::
  "('s, 'x, 'o, 'w) library \<Rightarrow> (nat \<Rightarrow> 'w) \<Rightarrow>
   int option \<times> (string \<times> 'x \<times> 'o) \<times> ('o \<times> 'o) \<Rightarrow>
   ('s, 'x, 'o, 'w) run_state \<Rightarrow> py_error option \<times> ('s, 'x, 'o, 'w) run_state" where
  "run_body lib ambient combination st =
     (case combination of (seed, (dataset_name, (X, y)), (estimator, param_grid)) \<Rightarrow>
        (case check_cv lib (cv (self st)) y (is_classifier lib estimator) of
           Inl e \<Rightarrow> (Some e, st)
         | Inr cv0 \<Rightarrow>
             (let cv1 = cv0\<lparr>shuffle := True\<rparr>;
                  cv2 = cv1\<lparr>split_random_state := seed\<rparr>;
                  self1 = (self st)\<lparr>cv := assign_cv (cv (self st)) cv2\<rparr>;
                  gscv = \<lparr>gs_estimator = estimator, gs_param_grid = param_grid,
                          gs_scoring = scoring self1, gs_cv = cv2, gs_refit = False,
                          gs_n_jobs = n_jobs self1\<rparr>;
                  call = \<lparr>call_dataset_name = dataset_name, call_gscv = gscv, call_X = X,
                          call_y = y, call_ambient = ambient (iterations st)\<rparr>;
                  observed1 = (observed st)\<lparr>fit_calls := fit_calls (observed st) @ [call]\<rparr>;
                  st1 = st\<lparr>self := self1, observed := observed1\<rparr>
              in case fit lib gscv X y (ambient (iterations st)) of
                   Inl e \<Rightarrow> (Some e, st1)
                 | Inr fitted \<Rightarrow>
                     (case results_attr self1 of
                        None \<Rightarrow> (Some (AttributeError ''results_''), st1)
                      | Some results \<Rightarrow>
                          (None,
                           st1\<lparr>self := self1\<lparr>results_attr := Some (results @ [(dataset_name, fitted)])\<rparr>,
                               observed := observed1\<lparr>progress := iterations st + 1\<rparr>,
                               iterations := iterations st + 1\<rparr>)))))"

definition run_loop ::
  "('s, 'x, 'o, 'w) library \<Rightarrow> (nat \<Rightarrow> 'w) \<Rightarrow>
   (int option \<times> (string \<times> 'x \<times> 'o) \<times> ('o \<times> 'o)) list \<Rightarrow>
   ('s, 'x, 'o, 'w) run_state \<Rightarrow> py_error option \<times> ('s, 'x, 'o, 'w) run_state" where
  "run_loop lib ambient combinations st = for_each (run_body lib ambient) combinations st"

text \<open>
  \<^verbatim>\<open>run(self, hide_warnings)\<close>: the exception raised, if any, the object as \<^verbatim>\<open>run\<close> leaves
  it, and what was observed.
\<close>

definition run ::
  "('s, 'x, 'o, 'w) library \<Rightarrow> (nat \<Rightarrow> 'w) \<Rightarrow> bool \<Rightarrow> ('s, 'x, 'o) extended_experiment \<Rightarrow>
   py_error option \<times> ('s, 'x, 'o) extended_experiment \<times> ('x, 'o, 'w) trace" where
  "run lib ambient hide_warnings self0 =
     (let observed0 = \<lparr>warnings_action = (if hide_warnings then ''ignore'' else ''default''),
                       max_value = None, progress = 0, fit_calls = []\<rparr>
      in case datasets self0 of
           None \<Rightarrow> (None, self0, observed0)
         | Some given \<Rightarrow>
        (case check_datasets lib given of
           Inl e \<Rightarrow> (Some e, self0, observed0)
         | Inr datasets' \<Rightarrow>
        (case check_estimators lib (estimators self0) of
           Inl e \<Rightarrow> (Some e, self0, observed0)
         | Inr es \<Rightarrow>
        (let self1 = self0\<lparr>estimators_attr := Some es\<rparr>
         in case check_param_grids lib (estimators self1) of
           Inl e \<Rightarrow> (Some e, self1, observed0)
         | Inr gs \<Rightarrow>
        (let self2 = self1\<lparr>param_grids_attr := Some gs\<rparr>
         in case check_random_states lib (random_state self2) (experiment_repetitions self2) of
           Inl e \<Rightarrow> (Some e, self2, observed0)
         | Inr rs \<Rightarrow>
        (let self3 = self2\<lparr>random_states_attr := Some rs\<rparr>;
             observed1 = observed0\<lparr>max_value := Some (length rs * length datasets' * length es)\<rparr>;
             combinations = product3 rs datasets' (zip es gs);
             self4 = self3\<lparr>results_attr := Some []\<rparr>;
             (raised, st) = run_loop lib ambient combinations
                              \<lparr>self = self4, observed = observed1, iterations = 0\<rparr>
         in (raised, self st, observed st)))))))"

subsection \<open>\<^verbatim>\<open>ResamplingExperiment.run\<close>, line 212: the estimators of the resampling mode\<close>

text \<open>
  A resampler or classifier is a tuple of its name, the object or \<^verbatim>\<open>None\<close>, and its
  parameter grid. \<open>product2\<close> is \<^verbatim>\<open>itertools.product\<close> of two iterables.
\<close>

definition product2 :: "'a list \<Rightarrow> 'b list \<Rightarrow> ('a \<times> 'b) list" where
  "product2 pool1 pool2 =
     (let result1 = concat (map (\<lambda>u. map (\<lambda>a. a) pool1) [()]);
          result2 = concat (map (\<lambda>a. map (\<lambda>b. (a, b)) pool2) result1)
      in result2)"

definition resampling_estimators ::
  "(string \<times> 'o option \<times> 'g) list \<Rightarrow> (string \<times> 'o option \<times> 'g) list \<Rightarrow>
   (string \<times> 'o option \<times> 'g) list list" where
  "resampling_estimators resamplers classifiers =
     map (\<lambda>(resampler, classifier).
            if fst (snd resampler) \<noteq> None then [resampler, classifier] else [classifier])
       (product2 resamplers classifiers)"

section \<open>imbtools/evaluation.py: \<^verbatim>\<open>BinaryExperiment\<close>\<close>

text \<open>
  An estimator handed to \<^verbatim>\<open>cross_val_score\<close> is one of the objects of the experiment or
  a pipeline; \<^verbatim>\<open>make_pipeline(a, b)\<close> is the pipeline of the two steps.
\<close>

datatype 'o est = Stage 'o | Pipeline "'o est list"

definition make_pipeline :: "'o est \<Rightarrow> 'o est \<Rightarrow> 'o est" where
  "make_pipeline a b = Pipeline [a, b]"

text \<open>
  \<^verbatim>\<open>StratifiedKFold(n_splits=, random_state=)\<close>: the call does not pass \<^verbatim>\<open>shuffle\<close>, which
  keeps the default of the library, \<^verbatim>\<open>False\<close>.
\<close>

record stratified_k_fold =
  skf_n_splits :: int
  skf_shuffle :: bool
  skf_random_state :: "int option"

definition StratifiedKFold :: "int \<Rightarrow> int option \<Rightarrow> stratified_k_fold" where
  "StratifiedKFold n seed = \<lparr>skf_n_splits = n, skf_shuffle = False, skf_random_state = seed\<rparr>"

text \<open>
  \<^verbatim>\<open>self.datasets\<close> is a directory path or a dictionary from names to \<^verbatim>\<open>(X, y)\<close>. A
  dictionary keeps its keys in insertion order; assigning to a key it has keeps the place
  of the key.
\<close>

datatype 'o datasets_arg = DatasetsPath string | DatasetsDict "(string \<times> 'o list \<times> 'o) list"

fun dict_set :: "('k \<times> 'v) list \<Rightarrow> 'k \<Rightarrow> 'v \<Rightarrow> ('k \<times> 'v) list" where
  "dict_set [] k v = [(k, v)]"
| "dict_set ((k', v') # kvs) k v =
     (if k' = k then (k, v) # kvs else (k', v') # dict_set kvs k v)"

text \<open>
  The library functions of \<^verbatim>\<open>BinaryExperiment\<close>: \<open>class_name\<close> is
  \<^verbatim>\<open>obj.__class__.__name__\<close>, \<open>metric_name\<close> is \<^verbatim>\<open>metric.__name__\<close>, \<open>set_params\<close> is
  \<^verbatim>\<open>obj.set_params(random_state=seed)\<close> and returns the object as changed, and
  \<open>cross_val_score_mean\<close> is \<^verbatim>\<open>cross_val_score(clf, X, y, cv=cv, scoring=scorer).mean()\<close>.
\<close>

record 'o binary_library =
  make_scorer :: "'o \<Rightarrow> 'o"
  class_name :: "'o \<Rightarrow> string"
  metric_name :: "'o \<Rightarrow> string"
  set_params :: "'o \<Rightarrow> int option \<Rightarrow> py_error + 'o"
  cross_val_score_mean ::
    "'o est \<Rightarrow> 'o list \<Rightarrow> 'o \<Rightarrow> stratified_k_fold \<Rightarrow> 'o \<Rightarrow> py_error + 'o"

text \<open>
  The attributes of a \<^verbatim>\<open>BinaryExperiment\<close>; those that \<^verbatim>\<open>ExtendedExperiment\<close> also has
  carry the prefix \<open>binary_\<close>. \<^verbatim>\<open>datasets_names_\<close> is the view \<^verbatim>\<open>self.datasets.keys()\<close>, so
  it is read off the dictionary.
\<close>

record 'o binary_experiment =
  oversampling_methods :: "'o option list"
  classifiers :: "'o list"
  metrics :: "'o list"
  binary_datasets :: "'o datasets_arg"
  n_splits :: int
  binary_experiment_repetitions :: int
  binary_random_state :: "int option"
  scorers_attr :: "'o list option"
  binary_random_states_attr :: "int option list option"
  cv_scores_attr :: "'o list option"
  classifiers_names_attr :: "string list option"
  oversampling_methods_names_attr :: "string list option"
  metrics_names_attr :: "string list option"

definition datasets_values :: "'o binary_experiment \<Rightarrow> py_error + ('o list \<times> 'o) list" where
  "datasets_values b =
     (case binary_datasets b of
        DatasetsDict d \<Rightarrow> Inr (map snd d)
      | DatasetsPath _ \<Rightarrow> Inl (AttributeError ''values''))"

definition datasets_names :: "'o binary_experiment \<Rightarrow> py_error + string list" where
  "datasets_names b =
     (case binary_datasets b of
        DatasetsDict d \<Rightarrow> Inr (map fst d)
      | DatasetsPath _ \<Rightarrow> Inl (AttributeError ''keys''))"

subsection \<open>\<^verbatim>\<open>_initialize_parameters\<close>\<close>

text \<open>
  The loop over the csv files (lines 51 to 55) assigns into \<^verbatim>\<open>self.datasets\<close>, which is
  the state here. After \<^verbatim>\<open>chdir(d)\<close> the directory listed and the files read are those
  of \<open>d\<close>.
\<close>

definition load_csv_file ::
  "'o file_system \<Rightarrow> string \<Rightarrow> string \<Rightarrow> (string \<times> 'o list \<times> 'o) list \<Rightarrow>
   py_error option \<times> (string \<times> 'o list \<times> 'o) list" where
  "load_csv_file fs d csv_file dict =
     (case read_csv fs (join d csv_file) of
        Inl e \<Rightarrow> (Some e, dict)
      | Inr dataset \<Rightarrow>
          (case split_X_y dataset of
             Inl e \<Rightarrow> (Some e, dict)
           | Inr (X, y) \<Rightarrow> (None, dict_set dict (sub_csv csv_file) (X, y))))"

definition class_name_of :: "'o binary_library \<Rightarrow> 'o option \<Rightarrow> string" where
  "class_name_of lib obj = (case obj of None \<Rightarrow> ''NoneType'' | Some m \<Rightarrow> class_name lib m)"

definition initialize_rest :: "'o binary_library \<Rightarrow> 'o binary_experiment \<Rightarrow> 'o binary_experiment" where
  "initialize_rest lib b =
     b\<lparr>binary_random_states_attr :=
          Some (initialize_random_states (binary_random_state b) (binary_experiment_repetitions b)),
       cv_scores_attr := Some [],
       classifiers_names_attr := Some (count_elements (map (class_name lib) (classifiers b))),
       oversampling_methods_names_attr :=
          Some (count_elements (map (class_name_of lib) (oversampling_methods b))),
       metrics_names_attr := Some (map (metric_name lib) (metrics b))\<rparr>"

definition initialize_parameters ::
  "'o file_system \<Rightarrow> 'o binary_library \<Rightarrow> 'o binary_experiment \<Rightarrow>
   py_error option \<times> 'o binary_experiment" where
  "initialize_parameters fs lib b0 =
     (let b1 = b0\<lparr>scorers_attr := Some (map (make_scorer lib) (metrics b0))\<rparr>
      in case binary_datasets b1 of
           DatasetsDict _ \<Rightarrow> (None, initialize_rest lib b1)
         | DatasetsPath d \<Rightarrow>
             (case chdir fs d of
                Some e \<Rightarrow> (Some e, b1)
              | None \<Rightarrow>
                  (let b2 = b1\<lparr>binary_datasets := DatasetsDict []\<rparr>
                   in case listdir fs d of
                        Inl e \<Rightarrow> (Some e, b2)
                      | Inr names \<Rightarrow>
                          (case for_each (load_csv_file fs d) (filter match_csv names) [] of
                             (Some e, dict) \<Rightarrow> (Some e, b2\<lparr>binary_datasets := DatasetsDict dict\<rparr>)
                           | (None, dict) \<Rightarrow>
                               (None, initialize_rest lib (b2\<lparr>binary_datasets := DatasetsDict dict\<rparr>))))))"

subsection \<open>\<^verbatim>\<open>BinaryExperiment.run\<close>\<close>

text \<open>
  What \<^verbatim>\<open>run\<close> does outside the object: the calls of \<^verbatim>\<open>cross_val_score\<close> in the order
  they were made, and the messages printed.
\<close>

record 'o evaluation =
  eval_estimator :: "'o est"
  eval_X :: "'o list"
  eval_y :: 'o
  eval_cv :: stratified_k_fold
  eval_scorer :: 'o

record 'o message =
  msg_experiment :: nat
  msg_classifier :: string
  msg_oversampling_method :: string
  msg_metric :: string
  msg_dataset :: string
  msg_cv_score :: 'o

record 'o binary_state =
  bself :: "'o binary_experiment"
  clf :: "'o est option"
  evaluations :: "'o evaluation list"
  printed :: "'o message list"

text \<open>
  The loops, innermost first. The variable \<^verbatim>\<open>clf\<close> is part of the state: line 76 assigns
  it inside the innermost loop, and only the loop over the classifiers (line 69) binds it
  again. The variables of the enclosing loops are the arguments before the item.
\<close>

definition dataset_body ::
  "'o binary_library \<Rightarrow> nat \<Rightarrow> stratified_k_fold \<Rightarrow> nat \<Rightarrow> nat \<Rightarrow> 'o option \<Rightarrow> nat \<Rightarrow> 'o \<Rightarrow>
   nat \<times> 'o list \<times> 'o \<Rightarrow> 'o binary_state \<Rightarrow> py_error option \<times> 'o binary_state" where
  "dataset_body lib experiment_ind cv_obj clf_ind oversampling_method_ind oversampling_method
       scorer_ind scorer item st =
     (case item of (dataset_ind, (X, y)) \<Rightarrow>
      (case clf st of
         None \<Rightarrow> (Some (AttributeError ''clf''), st)
       | Some clf0 \<Rightarrow>
      (let clf1 = (case oversampling_method of
                     Some m \<Rightarrow> make_pipeline (Stage m) clf0
                   | None \<Rightarrow> clf0);
           st1 = st\<lparr>clf := Some clf1\<rparr>
       in case classifiers_names_attr (bself st1) of
            None \<Rightarrow> (Some (AttributeError ''classifiers_names_''), st1)
          | Some clf_names \<Rightarrow>
         (case py_index clf_names clf_ind of
            Inl e \<Rightarrow> (Some e, st1)
          | Inr clf_name \<Rightarrow>
         (case oversampling_methods_names_attr (bself st1) of
            None \<Rightarrow> (Some (AttributeError ''oversampling_methods_names_''), st1)
          | Some om_names \<Rightarrow>
         (case py_index om_names oversampling_method_ind of
            Inl e \<Rightarrow> (Some e, st1)
          | Inr om_name \<Rightarrow>
         (case metrics_names_attr (bself st1) of
            None \<Rightarrow> (Some (AttributeError ''metrics_names_''), st1)
          | Some m_names \<Rightarrow>
         (case py_index m_names scorer_ind of
            Inl e \<Rightarrow> (Some e, st1)
          | Inr metric_name' \<Rightarrow>
         (case datasets_names (bself st1) of
            Inl e \<Rightarrow> (Some e, st1)
          | Inr d_names \<Rightarrow>
         (case py_index d_names dataset_ind of
            Inl e \<Rightarrow> (Some e, st1)
          | Inr dataset_name \<Rightarrow>
         (let call = \<lparr>eval_estimator = clf1, eval_X = X, eval_y = y, eval_cv = cv_obj,
                       eval_scorer = scorer\<rparr>;
              st2 = st1\<lparr>evaluations := evaluations st1 @ [call]\<rparr>
          in case cross_val_score_mean lib clf1 X y cv_obj scorer of
               Inl e \<Rightarrow> (Some e, st2)
             | Inr cv_score \<Rightarrow>
                 (let st3 = st2\<lparr>printed := printed st2 @
                              [\<lparr>msg_experiment = experiment_ind + 1, msg_classifier = clf_name,
                                msg_oversampling_method = om_name, msg_metric = metric_name',
                                msg_dataset = dataset_name, msg_cv_score = cv_score\<rparr>]\<rparr>
                  in case cv_scores_attr (bself st3) of
                       None \<Rightarrow> (Some (AttributeError ''cv_scores_''), st3)
                     | Some scores \<Rightarrow>
                         (None, st3\<lparr>bself := (bself st3)\<lparr>cv_scores_attr := Some (scores @ [cv_score])\<rparr>\<rparr>)))))))))))))"

definition scorer_body ::
  "'o binary_library \<Rightarrow> nat \<Rightarrow> stratified_k_fold \<Rightarrow> nat \<Rightarrow> nat \<Rightarrow> 'o option \<Rightarrow>
   nat \<times> 'o \<Rightarrow> 'o binary_state \<Rightarrow> py_error option \<times> 'o binary_state" where
  "scorer_body lib experiment_ind cv_obj clf_ind oversampling_method_ind oversampling_method item st =
     (case item of (scorer_ind, scorer) \<Rightarrow>
      (case datasets_values (bself st) of
         Inl e \<Rightarrow> (Some e, st)
       | Inr values \<Rightarrow>
           for_each
             (dataset_body lib experiment_ind cv_obj clf_ind oversampling_method_ind
                oversampling_method scorer_ind scorer)
             (enumerate_list values) st))"

definition oversampling_method_body ::
  "'o binary_library \<Rightarrow> nat \<Rightarrow> int option \<Rightarrow> stratified_k_fold \<Rightarrow> nat \<Rightarrow>
   nat \<Rightarrow> 'o binary_state \<Rightarrow> py_error option \<times> 'o binary_state" where
  "oversampling_method_body lib experiment_ind seed cv_obj clf_ind oversampling_method_ind st =
     (case py_index (oversampling_methods (bself st)) oversampling_method_ind of
        Inl e \<Rightarrow> (Some e, st)
      | Inr None \<Rightarrow> (Some (AttributeError ''set_params''), st)
      | Inr (Some m) \<Rightarrow>
          (case set_params lib m seed of
             Inl e \<Rightarrow> (Some e, st)
           | Inr m' \<Rightarrow>
               (let b1 = (bself st)\<lparr>oversampling_methods :=
                             (oversampling_methods (bself st))[oversampling_method_ind := Some m']\<rparr>;
                    st1 = st\<lparr>bself := b1\<rparr>
                in case scorers_attr b1 of
                     None \<Rightarrow> (Some (AttributeError ''scorers_''), st1)
                   | Some scorers \<Rightarrow>
                       for_each
                         (scorer_body lib experiment_ind cv_obj clf_ind oversampling_method_ind (Some m'))
                         (enumerate_list scorers) st1)))"

definition classifier_body ::
  "'o binary_library \<Rightarrow> nat \<Rightarrow> int option \<Rightarrow> stratified_k_fold \<Rightarrow>
   nat \<Rightarrow> 'o binary_state \<Rightarrow> py_error option \<times> 'o binary_state" where
  "classifier_body lib experiment_ind seed cv_obj clf_ind st =
     (case py_index (classifiers (bself st)) clf_ind of
        Inl e \<Rightarrow> (Some e, st)
      | Inr c \<Rightarrow>
          (case set_params lib c seed of
             Inl e \<Rightarrow> (Some e, st\<lparr>clf := Some (Stage c)\<rparr>)
           | Inr c' \<Rightarrow>
               (let b1 = (bself st)\<lparr>classifiers := (classifiers (bself st))[clf_ind := c']\<rparr>;
                    st1 = st\<lparr>bself := b1, clf := Some (Stage c')\<rparr>
                in for_each (oversampling_method_body lib experiment_ind seed cv_obj clf_ind)
                     [0..<length (oversampling_methods b1)] st1)))"

definition experiment_body ::
  "'o binary_library \<Rightarrow> nat \<times> int option \<Rightarrow> 'o binary_state \<Rightarrow> py_error option \<times> 'o binary_state" where
  "experiment_body lib item st =
     (case item of (experiment_ind, seed) \<Rightarrow>
        (let cv_obj = StratifiedKFold (n_splits (bself st)) seed
         in for_each (classifier_body lib experiment_ind seed cv_obj)
              [0..<length (classifiers (bself st))] st))"

definition binary_run ::
  "'o file_system \<Rightarrow> 'o binary_library \<Rightarrow> 'o binary_experiment \<Rightarrow>
   py_error option \<times> 'o binary_state" where
  "binary_run fs lib b0 =
     (case initialize_parameters fs lib b0 of
        (Some e, b1) \<Rightarrow> (Some e, \<lparr>bself = b1, clf = None, evaluations = [], printed = []\<rparr>)
      | (None, b1) \<Rightarrow>
          (case binary_random_states_attr b1 of
             None \<Rightarrow>
               (Some (AttributeError ''random_states_''),
                \<lparr>bself = b1, clf = None, evaluations = [], printed = []\<rparr>)
           | Some seeds \<Rightarrow>
               for_each (experiment_body lib) (enumerate_list seeds)
                 \<lparr>bself = b1, clf = None, evaluations = [], printed = []\<rparr>))"

section \<open>Notions used to state the properties\<close>

subsection \<open>\<^verbatim>\<open>ExtendedExperiment.run\<close>\<close>

text \<open>
  The observations before the first statement after \<^verbatim>\<open>filterwarnings\<close>, and the state in
  which the loop starts when the four validators have returned \<open>ds\<close>, \<open>es\<close>, \<open>gs\<close> and
  \<open>rs\<close>.
\<close>

definition initial_trace :: "bool \<Rightarrow> ('x, 'o, 'w) trace" where
  "initial_trace hide_warnings =
     \<lparr>warnings_action = (if hide_warnings then ''ignore'' else ''default''),
      max_value = None, progress = 0, fit_calls = []\<rparr>"

definition loop_start ::
  "bool \<Rightarrow> ('s, 'x, 'o) extended_experiment \<Rightarrow> (string \<times> 'x \<times> 'o) list \<Rightarrow> 'o list \<Rightarrow> 'o list \<Rightarrow>
   int option list \<Rightarrow> ('s, 'x, 'o, 'w) run_state" where
  "loop_start hide_warnings self0 ds es gs rs =
     \<lparr>self = self0\<lparr>estimators_attr := Some es, param_grids_attr := Some gs,
                    random_states_attr := Some rs, results_attr := Some []\<rparr>,
      observed = (initial_trace hide_warnings)\<lparr>max_value := Some (length rs * length ds * length es)\<rparr>,
      iterations = 0\<rparr>"

text \<open>The number of entries of \<^verbatim>\<open>results_\<close>.\<close>

definition n_results :: "('s, 'x, 'o, 'w) run_state \<Rightarrow> nat" where
  "n_results st = (case results_attr (self st) of None \<Rightarrow> 0 | Some res \<Rightarrow> length res)"

text \<open>
  The Combination a call of \<^verbatim>\<open>gscv.fit\<close> was made for, read off its arguments; what the
  call returns; and the relation between the calls made and \<^verbatim>\<open>results_\<close>: one entry per
  call, in the order of the calls, each holding the dataset name of its call and what
  the call returned.
\<close>

definition call_combination ::
  "('x, 'o, 'w) fit_call \<Rightarrow> int option \<times> (string \<times> 'x \<times> 'o) \<times> ('o \<times> 'o)" where
  "call_combination c =
     (split_random_state (gs_cv (call_gscv c)),
      (call_dataset_name c, call_X c, call_y c),
      (gs_estimator (call_gscv c), gs_param_grid (call_gscv c)))"

definition fit_of :: "('s, 'x, 'o, 'w) library \<Rightarrow> ('x, 'o, 'w) fit_call \<Rightarrow> py_error + 'o" where
  "fit_of lib c = fit lib (call_gscv c) (call_X c) (call_y c) (call_ambient c)"

definition recorded ::
  "('s, 'x, 'o, 'w) library \<Rightarrow> ('x, 'o, 'w) fit_call list \<Rightarrow> (string \<times> 'o) list option \<Rightarrow> bool" where
  "recorded lib calls results =
     (case results of
        None \<Rightarrow> False
      | Some res \<Rightarrow>
          map fst res = map call_dataset_name calls \<and>
          map (\<lambda>r. Inr (snd r)) res = map (fit_of lib) calls)"

text \<open>
  The last call made raised \<open>e\<close>, and \<^verbatim>\<open>results_\<close> holds the entries of the calls before
  it.
\<close>

definition fit_failed_last ::
  "('s, 'x, 'o, 'w) library \<Rightarrow> py_error \<Rightarrow> ('s, 'x, 'o, 'w) run_state \<Rightarrow> bool" where
  "fit_failed_last lib e st =
     (fit_calls (observed st) \<noteq> [] \<and>
      fit_of lib (last (fit_calls (observed st))) = Inl e \<and>
      recorded lib (butlast (fit_calls (observed st))) (results_attr (self st)))"

text \<open>
  Two runs are compared up to the two attributes of the splitter object that every pass of
  the loop assigns before it uses the splitter: \<open>unset_cv\<close> clears them. Two objects have
  the same configuration when they agree, up to these two attributes, on everything
  \<^verbatim>\<open>run\<close> reads before the loop; they are the same up to \<^verbatim>\<open>cv\<close> when they agree on what
  the loop reads and on \<^verbatim>\<open>results_\<close>. \<open>prepared_cv\<close> is the splitter as \<^verbatim>\<open>gscv\<close> receives
  it, after lines 135 to 137.
\<close>

definition unset_cv :: "'o cv_spec \<Rightarrow> 'o cv_spec" where
  "unset_cv c =
     (case c of
        CvObject sp \<Rightarrow> CvObject (sp\<lparr>shuffle := False, split_random_state := None\<rparr>)
      | CvOther x \<Rightarrow> CvOther x)"

definition same_up_to_cv ::
  "('s, 'x, 'o) extended_experiment \<Rightarrow> ('s, 'x, 'o) extended_experiment \<Rightarrow> bool" where
  "same_up_to_cv a b =
     (unset_cv (cv a) = unset_cv (cv b) \<and> scoring a = scoring b \<and> n_jobs a = n_jobs b \<and>
      results_attr a = results_attr b)"

definition same_configuration ::
  "('s, 'x, 'o) extended_experiment \<Rightarrow> ('s, 'x, 'o) extended_experiment \<Rightarrow> bool" where
  "same_configuration a b =
     (unset_cv (cv a) = unset_cv (cv b) \<and> scoring a = scoring b \<and> n_jobs a = n_jobs b \<and>
      estimators a = estimators b \<and> datasets a = datasets b \<and>
      experiment_repetitions a = experiment_repetitions b \<and> random_state a = random_state b)"

definition prepared_cv ::
  "('s, 'x, 'o, 'w) library \<Rightarrow> 'o cv_spec \<Rightarrow> 'o \<Rightarrow> bool \<Rightarrow> int option \<Rightarrow> py_error + 'o splitter" where
  "prepared_cv lib c y classifier seed =
     (case check_cv lib c y classifier of
        Inl e \<Rightarrow> Inl e
      | Inr cv0 \<Rightarrow> Inr (cv0\<lparr>shuffle := True, split_random_state := seed\<rparr>))"

subsection \<open>\<^verbatim>\<open>BinaryExperiment.run\<close>\<close>

text \<open>
  The same notions for \<^verbatim>\<open>cross_val_score\<close> and \<^verbatim>\<open>cv_scores_\<close>.
\<close>

definition score_of :: "'o binary_library \<Rightarrow> 'o evaluation \<Rightarrow> py_error + 'o" where
  "score_of lib ev =
     cross_val_score_mean lib (eval_estimator ev) (eval_X ev) (eval_y ev) (eval_cv ev) (eval_scorer ev)"

definition scored :: "'o binary_library \<Rightarrow> 'o evaluation list \<Rightarrow> 'o list option \<Rightarrow> bool" where
  "scored lib evs scores =
     (case scores of
        None \<Rightarrow> False
      | Some sc \<Rightarrow> map Inr sc = map (score_of lib) evs)"

definition score_failed_last :: "'o binary_library \<Rightarrow> py_error \<Rightarrow> 'o binary_state \<Rightarrow> bool" where
  "score_failed_last lib e st =
     (evaluations st \<noteq> [] \<and>
      score_of lib (last (evaluations st)) = Inl e \<and>
      scored lib (butlast (evaluations st)) (cv_scores_attr (bself st)))"

definition all_scored :: "'o binary_library \<Rightarrow> 'o binary_state \<Rightarrow> bool" where
  "all_scored lib st = scored lib (evaluations st) (cv_scores_attr (bself st))"

definition stopped_scored :: "'o binary_library \<Rightarrow> py_error \<Rightarrow> 'o binary_state \<Rightarrow> bool" where
  "stopped_scored lib e st = (all_scored lib st \<or> score_failed_last lib e st)"

section \<open>Concrete experiments\<close>

text \<open>
  A library whose validators accept their input, whose \<^verbatim>\<open>check_cv\<close> builds an unshuffled
  and unseeded splitter, and whose \<^verbatim>\<open>fit\<close> raises on the feature matrix \<open>''bad''\<close> and
  otherwise returns a value made of the estimator, the data and the seed; an experiment
  over two repetitions, two datasets and two estimators; and one whose second dataset makes
  \<^verbatim>\<open>fit\<close> raise.
\<close>

definition example_library :: "(string, string, string, nat) library" where
  "example_library =
     \<lparr>check_datasets = Inr,
      check_estimators = (\<lambda>es. Inr (map (\<lambda>e. e @ ''_estimator'') es)),
      check_param_grids = (\<lambda>es. Inr (map (\<lambda>e. e @ ''_grid'') es)),
      check_random_states = (\<lambda>seed n. Inr (initialize_random_states seed n)),
      check_cv_new = (\<lambda>c y classifier.
         Inr \<lparr>splitter_params = c, shuffle = False, split_random_state = None\<rparr>),
      is_classifier = (\<lambda>estimator. True),
      fit = (\<lambda>gscv X y w.
         if X = ''bad'' then Inl (LibraryError ''undefined metric'')
         else Inr (gs_estimator gscv @ '' on '' @ X @ '' seed '' @
                   (case split_random_state (gs_cv gscv) of
                      None \<Rightarrow> ''ambient '' @ str_int (int w)
                    | Some i \<Rightarrow> str_int i)))\<rparr>"

definition example_experiment :: "(string, string, string) extended_experiment" where
  "example_experiment =
     \<lparr>scoring = ''f1'', cv = CvOther ''3'', n_jobs = 1, estimators = [''svc'', ''tree''],
      datasets = Some [(''d1'', ''X1'', ''y1''), (''d2'', ''X2'', ''y2'')],
      experiment_repetitions = 2, random_state = Some 5,
      estimators_attr = None, param_grids_attr = None, random_states_attr = None,
      results_attr = None\<rparr>"

definition example_failing_experiment :: "(string, string, string) extended_experiment" where
  "example_failing_experiment =
     example_experiment\<lparr>datasets := Some [(''d1'', ''X1'', ''y1''), (''d2'', ''bad'', ''y2'')]\<rparr>"

text \<open>
  A directory without csv files, and a \<^verbatim>\<open>BinaryExperiment\<close> over one repetition, two
  classifiers of the same class, one oversampling method, one metric and two datasets.
  \<^verbatim>\<open>set_params\<close> writes the seed after the name of the object, and
  \<^verbatim>\<open>cross_val_score\<close> raises on the features \<open>[''bad'']\<close>.
\<close>

definition example_file_system :: "string file_system" where
  "example_file_system =
     \<lparr>chdir = (\<lambda>d. None),
      listdir = (\<lambda>d. Inr [''README.md'', ''notes.txt'']),
      read_csv = (\<lambda>path. Inl (OSError ''unreadable''))\<rparr>"

definition example_binary_library :: "string binary_library" where
  "example_binary_library =
     \<lparr>make_scorer = (\<lambda>m. m),
      class_name = takeWhile (\<lambda>ch. ch \<noteq> CHR ''#''),
      metric_name = (\<lambda>m. m),
      set_params = (\<lambda>obj seed.
         Inr (takeWhile (\<lambda>ch. ch \<noteq> CHR ''#'') obj @ ''#'' @
              (case seed of None \<Rightarrow> ''None'' | Some i \<Rightarrow> str_int i))),
      cross_val_score_mean = (\<lambda>estimator X y cv_obj scorer.
         if X = [''bad''] then Inl (LibraryError ''undefined metric'') else Inr ''0.5'')\<rparr>"

definition example_binary_experiment :: "string binary_experiment" where
  "example_binary_experiment =
     \<lparr>oversampling_methods = [Some ''SMOTE''], classifiers = [''LR'', ''LR''],
      metrics = [''f1''],
      binary_datasets = DatasetsDict [(''d1'', [''X1''], ''y1''), (''d2'', [''X2''], ''y2'')],
      n_splits = 3, binary_experiment_repetitions = 1, binary_random_state = Some 5,
      scorers_attr = None, binary_random_states_attr = None, cv_scores_attr = None,
      classifiers_names_attr = None, oversampling_methods_names_attr = None,
      metrics_names_attr = None\<rparr>"

definition example_path_experiment :: "string binary_experiment" where
  "example_path_experiment =
     example_binary_experiment\<lparr>binary_datasets := DatasetsPath ''data''\<rparr>"

definition example_failing_binary_experiment :: "string binary_experiment" where
  "example_failing_binary_experiment =
     example_binary_experiment
       \<lparr>binary_datasets := DatasetsDict [(''d1'', [''X1''], ''y1''), (''d2'', [''bad''], ''y2'')]\<rparr>"


text \<open>
  An experiment whose dataset list is empty, and a library whose \<^verbatim>\<open>check_estimators\<close>
  raises; a \<^verbatim>\<open>BinaryExperiment\<close> whose only oversampling method is \<^verbatim>\<open>None\<close>.
\<close>

definition example_empty_experiment :: "(string, string, string) extended_experiment" where
  "example_empty_experiment = example_experiment\<lparr>datasets := Some []\<rparr>"

definition example_strict_library :: "(string, string, string, nat) library" where
  "example_strict_library =
     example_library\<lparr>check_estimators := (\<lambda>es. Inl (LibraryError ''malformed estimator''))\<rparr>"

definition example_none_experiment :: "string binary_experiment" where
  "example_none_experiment = example_binary_experiment\<lparr>oversampling_methods := [None]\<rparr>"

text \<open>The experiment without a base seed.\<close>

definition example_unseeded_experiment :: "(string, string, string) extended_experiment" where
  "example_unseeded_experiment = example_experiment\<lparr>random_state := None\<rparr>"

section \<open>Lemmas\<close>

lemma occurrence_Cons_0: "occurrence (e # es) 0 = 1"
  by (simp add: occurrence_def)

lemma occurrence_Cons_Suc:
  "occurrence (e # es) (Suc i) = (if e = es ! i then 1 else 0) + occurrence es i"
  by (simp add: occurrence_def)

lemma count_elements_loop_closed:
  assumes "\<And>e. elements_map e = (if cnt e = 0 then None else Some (int (cnt e)))"
  shows "count_elements_loop elements_map acc es =
         acc @ map (\<lambda>i. renamed (es ! i) (cnt (es ! i) + occurrence es i)) [0..<length es]"
  using assms
proof (induction es arbitrary: elements_map cnt acc)
  case Nil
  then show ?case by simp
next
  case (Cons e es)
  let ?cnt = "cnt(e := Suc (cnt e))"
  let ?m = "elements_map(e \<mapsto> int (Suc (cnt e)))"
  have inv: "\<And>x. ?m x = (if ?cnt x = 0 then None else Some (int (?cnt x)))"
    using Cons.prems by simp
  have tail: "count_elements_loop ?m acc' es =
      acc' @ map (\<lambda>i. renamed (es ! i) (?cnt (es ! i) + occurrence es i)) [0..<length es]" for acc'
    by (rule Cons.IH [OF inv])
  have shift: "map (\<lambda>i. renamed ((e # es) ! i) (cnt ((e # es) ! i) + occurrence (e # es) i)) [0..<length (e # es)]
      = renamed e (Suc (cnt e)) # map (\<lambda>i. renamed (es ! i) (?cnt (es ! i) + occurrence es i)) [0..<length es]"
    by (simp add: map_upt_Suc occurrence_Cons_0 occurrence_Cons_Suc del: upt_Suc)
  have step: "count_elements_loop elements_map acc (e # es) =
      count_elements_loop ?m (acc @ [renamed e (Suc (cnt e))]) es"
  proof (cases "cnt e = 0")
    case True
    then have "elements_map e = None" using Cons.prems by simp
    then show ?thesis using True by (simp add: renamed_def)
  next
    case False
    then have "elements_map e = Some (int (cnt e))" using Cons.prems by simp
    then show ?thesis using False by (simp add: renamed_def add.commute)
  qed
  show ?case
    unfolding step tail shift by simp
qed

lemma count_elements_closed:
  "count_elements es = map (\<lambda>i. renamed (es ! i) (occurrence es i)) [0..<length es]"
  using count_elements_loop_closed [of Map.empty "\<lambda>_. 0" "[]" es]
  by (simp add: count_elements_def)

lemma occurrence_pos: "i < length es \<Longrightarrow> 0 < occurrence es i"
  by (simp add: occurrence_def take_Suc_conv_app_nth)

lemma str_int_2: "str_int 2 = ''2''"
  by (simp add: str_int_def digit_char_def)

lemma read_csv_dir_no_match:
  assumes "listdir fs d = Inr names" and "filter match_csv names = []"
  shows "read_csv_dir fs d = Inr []"
  using assms by (simp add: read_csv_dir_def)

lemma initialize_parameters_no_match:
  assumes "listdir fs d = Inr names" and "filter match_csv names = []"
    and "binary_datasets b = DatasetsPath d" and "chdir fs d = None"
  shows "fst (initialize_parameters fs lib b) = None"
    and "binary_datasets (snd (initialize_parameters fs lib b)) = DatasetsDict []"
  using assms by (simp_all add: initialize_parameters_def initialize_rest_def Let_def)

lemma for_each_invariant:
  assumes "I st"
    and "\<And>x s s'. x \<in> set xs \<Longrightarrow> I s \<Longrightarrow> body x s = (None, s') \<Longrightarrow> I s'"
    and "\<And>x s e s'. x \<in> set xs \<Longrightarrow> I s \<Longrightarrow> body x s = (Some e, s') \<Longrightarrow> Q e s'"
  shows "case for_each body xs st of (None, s') \<Rightarrow> I s' | (Some e, s') \<Rightarrow> Q e s'"
  using assms
proof (induction xs arbitrary: st)
  case Nil
  then show ?case by simp
next
  case (Cons x xs)
  obtain r s1 where b: "body x st = (r, s1)" by (cases "body x st")
  show ?case
  proof (cases r)
    case None
    have "I s1"
      using Cons.prems(2) [of x st s1] Cons.prems(1) b None by simp
    then have "case for_each body xs s1 of (None, s') \<Rightarrow> I s' | (Some e, s') \<Rightarrow> Q e s'"
    proof (rule Cons.IH)
      show "\<And>y s s'. y \<in> set xs \<Longrightarrow> I s \<Longrightarrow> body y s = (None, s') \<Longrightarrow> I s'"
        using Cons.prems(2) by (meson list.set_intros(2))
      show "\<And>y s e s'. y \<in> set xs \<Longrightarrow> I s \<Longrightarrow> body y s = (Some e, s') \<Longrightarrow> Q e s'"
        using Cons.prems(3) by (meson list.set_intros(2))
    qed
    with b None show ?thesis by simp
  next
    case (Some e)
    have "Q e s1"
      using Cons.prems(3) [of x st e s1] Cons.prems(1) b Some by simp
    with b Some show ?thesis by simp
  qed
qed

lemma for_each_related:
  assumes "R s t"
    and "\<And>x s t. x \<in> set xs \<Longrightarrow> R s t \<Longrightarrow>
           fst (f x s) = fst (g x t) \<and> R (snd (f x s)) (snd (g x t))"
  shows "fst (for_each f xs s) = fst (for_each g xs t) \<and>
         R (snd (for_each f xs s)) (snd (for_each g xs t))"
  using assms
proof (induction xs arbitrary: s t)
  case Nil
  then show ?case by simp
next
  case (Cons x xs)
  obtain r s1 where f: "f x s = (r, s1)" by (cases "f x s")
  obtain r' t1 where g: "g x t = (r', t1)" by (cases "g x t")
  have "fst (f x s) = fst (g x t) \<and> R (snd (f x s)) (snd (g x t))"
    using Cons.prems by auto
  with f g have rr: "r' = r" and R1: "R s1 t1" by auto
  show ?case
  proof (cases r)
    case None
    have "fst (for_each f xs s1) = fst (for_each g xs t1) \<and>
          R (snd (for_each f xs s1)) (snd (for_each g xs t1))"
      using R1 Cons.prems by (intro Cons.IH) auto
    with f g rr None show ?thesis by simp
  next
    case (Some e)
    with f g rr R1 show ?thesis by simp
  qed
qed

lemma for_each_success_length:
  assumes "for_each body xs st = (None, st')"
    and "\<And>x s s'. body x s = (None, s') \<Longrightarrow> m s' = Suc (m s)"
  shows "m st' = m st + length xs"
  using assms
proof (induction xs arbitrary: st)
  case Nil
  then show ?case by simp
next
  case (Cons x xs)
  obtain r s1 where b: "body x st = (r, s1)" by (cases "body x st")
  with Cons.prems(1) have r: "r = None" and rest: "for_each body xs s1 = (None, st')"
    by (auto split: option.splits)
  have "m s1 = Suc (m st)" using b r Cons.prems(2) by auto
  moreover have "m st' = m s1 + length xs" using rest Cons.prems(2) by (rule Cons.IH)
  ultimately show ?case by simp
qed

lemma run_body_eq:
  "run_body lib amb (seed, (dataset_name, X, y), (estimator, param_grid)) st =
     (case check_cv lib (cv (self st)) y (is_classifier lib estimator) of
        Inl e \<Rightarrow> (Some e, st)
      | Inr cv0 \<Rightarrow>
          (let cv2 = cv0\<lparr>shuffle := True, split_random_state := seed\<rparr>;
               self1 = (self st)\<lparr>cv := assign_cv (cv (self st)) cv2\<rparr>;
               gscv = \<lparr>gs_estimator = estimator, gs_param_grid = param_grid,
                       gs_scoring = scoring (self st), gs_cv = cv2, gs_refit = False,
                       gs_n_jobs = n_jobs (self st)\<rparr>;
               call = \<lparr>call_dataset_name = dataset_name, call_gscv = gscv, call_X = X,
                       call_y = y, call_ambient = amb (iterations st)\<rparr>;
               calls = fit_calls (observed st) @ [call]
           in case fit lib gscv X y (amb (iterations st)) of
                Inl e \<Rightarrow> (Some e, st\<lparr>self := self1, observed := (observed st)\<lparr>fit_calls := calls\<rparr>\<rparr>)
              | Inr fitted \<Rightarrow>
                  (case results_attr (self st) of
                     None \<Rightarrow> (Some (AttributeError ''results_''),
                              st\<lparr>self := self1, observed := (observed st)\<lparr>fit_calls := calls\<rparr>\<rparr>)
                   | Some results \<Rightarrow>
                       (None,
                        \<lparr>self = self1\<lparr>results_attr := Some (results @ [(dataset_name, fitted)])\<rparr>,
                         observed = (observed st)\<lparr>fit_calls := calls, progress := Suc (iterations st)\<rparr>,
                         iterations = Suc (iterations st)\<rparr>))))"
  by (simp add: run_body_def Let_def split: sum.splits option.splits)

lemma product3_nested:
  "product3 xs ys zs = concat (map (\<lambda>x. concat (map (\<lambda>y. map (\<lambda>z. (x, y, z)) zs) ys)) xs)"
  by (induction xs) (simp_all add: product3_def map_concat comp_def)

lemma length_concat_const:
  "(\<And>x. x \<in> set xs \<Longrightarrow> length (f x) = n) \<Longrightarrow> length (concat (map f xs)) = length xs * n"
  by (induction xs) simp_all

lemma length_product3: "length (product3 xs ys zs) = length xs * length ys * length zs"
  by (simp add: product3_nested length_concat_const mult.assoc)

lemma run_body_success:
  assumes "run_body lib amb c st = (None, st')"
  shows "\<exists>res r. results_attr (self st) = Some res \<and> results_attr (self st') = Some (res @ [r])"
    and "iterations st' = Suc (iterations st)"
    and "progress (observed st') = Suc (iterations st)"
  using assms
  by (cases c; auto simp: run_body_eq Let_def split: sum.splits option.splits)+



lemma run_loop_success_count:
  assumes "run_loop lib amb combos st = (None, st')" and "results_attr (self st) \<noteq> None"
  shows "n_results st' = n_results st + length combos"
    and "iterations st' = iterations st + length combos"
    and "results_attr (self st') \<noteq> None"
proof -
  have loop: "for_each (run_body lib amb) combos st = (None, st')"
    using assms(1) by (simp add: run_loop_def)
  show "n_results st' = n_results st + length combos"
    using loop
  proof (rule for_each_success_length)
    fix x s s' assume "run_body lib amb x s = (None, s')"
    from run_body_success(1) [OF this] show "n_results s' = Suc (n_results s)"
      by (auto simp: n_results_def)
  qed
  show "iterations st' = iterations st + length combos"
    using loop by (rule for_each_success_length) (rule run_body_success(2))
  have "case for_each (run_body lib amb) combos st of
          (None, s') \<Rightarrow> results_attr (self s') \<noteq> None
        | (Some e, s') \<Rightarrow> True"
    using assms(2)
  proof (rule for_each_invariant)
    fix x s s' assume "run_body lib amb x s = (None, s')"
    from run_body_success(1) [OF this] show "results_attr (self s') \<noteq> None" by auto
  qed simp
  with loop show "results_attr (self st') \<noteq> None" by simp
qed

lemma run_absent:
  "datasets self0 = None \<Longrightarrow> run lib amb hw self0 = (None, self0, initial_trace hw)"
  by (simp add: run_def initial_trace_def)

lemma run_reaches_loop:
  assumes "datasets self0 = Some given" and "check_datasets lib given = Inr ds"
    and "check_estimators lib (estimators self0) = Inr es"
    and "check_param_grids lib (estimators self0) = Inr gs"
    and "check_random_states lib (random_state self0) (experiment_repetitions self0) = Inr rs"
  shows "run lib amb hw self0 =
           (fst (run_loop lib amb (product3 rs ds (zip es gs)) (loop_start hw self0 ds es gs rs)),
            self (snd (run_loop lib amb (product3 rs ds (zip es gs)) (loop_start hw self0 ds es gs rs))),
            observed (snd (run_loop lib amb (product3 rs ds (zip es gs)) (loop_start hw self0 ds es gs rs))))"
  using assms
  by (simp add: run_def loop_start_def initial_trace_def Let_def split: prod.splits)

lemma run_cases:
  obtains (absent) "datasets obj = None"
  | (invalid) e self1 where "run lib amb hw obj = (Some e, self1, initial_trace hw)"
      and "results_attr self1 = results_attr obj"
  | (loop) given ds es gs rs where "datasets obj = Some given"
      and "check_datasets lib given = Inr ds"
      and "check_estimators lib (estimators obj) = Inr es"
      and "check_param_grids lib (estimators obj) = Inr gs"
      and "check_random_states lib (random_state obj) (experiment_repetitions obj) = Inr rs"
proof (cases "datasets obj")
  case None
  then show ?thesis by (rule absent)
next
  case (Some given)
  note g = this
  show ?thesis
  proof (cases "check_datasets lib given")
    case (Inl e)
    with g have "run lib amb hw obj = (Some e, obj, initial_trace hw)"
      by (simp add: run_def initial_trace_def)
    then show ?thesis by (rule invalid) simp
  next
    case (Inr ds)
    note d = this
    show ?thesis
    proof (cases "check_estimators lib (estimators obj)")
      case (Inl e)
      with g d have "run lib amb hw obj = (Some e, obj, initial_trace hw)"
        by (simp add: run_def initial_trace_def)
      then show ?thesis by (rule invalid) simp
    next
      case (Inr es)
      note e = this
      show ?thesis
      proof (cases "check_param_grids lib (estimators obj)")
        case (Inl err)
        with g d e have "run lib amb hw obj =
            (Some err, obj\<lparr>estimators_attr := Some es\<rparr>, initial_trace hw)"
          by (simp add: run_def initial_trace_def)
        then show ?thesis by (rule invalid) simp
      next
        case (Inr gs)
        note p = this
        show ?thesis
        proof (cases "check_random_states lib (random_state obj) (experiment_repetitions obj)")
          case (Inl err)
          with g d e p have "run lib amb hw obj =
              (Some err, obj\<lparr>estimators_attr := Some es, param_grids_attr := Some gs\<rparr>,
               initial_trace hw)"
            by (simp add: run_def initial_trace_def)
          then show ?thesis by (rule invalid) simp
        next
          case (Inr rs)
          with g d e p show ?thesis by (rule loop)
        qed
      qed
    qed
  qed
qed


lemma run_body_calls:
  assumes "run_body lib amb c st = (r, st')"
  shows "(r \<noteq> None \<and> fit_calls (observed st') = fit_calls (observed st)) \<or>
         (\<exists>call. fit_calls (observed st') = fit_calls (observed st) @ [call] \<and>
            call_combination call = c \<and> shuffle (gs_cv (call_gscv call)))"
  using assms
  by (cases c)
     (auto simp: run_body_eq Let_def call_combination_def fit_of_def split: sum.splits option.splits)

lemma run_loop_calls:
  assumes "run_loop lib amb combos st = (r, st')"
  shows "\<exists>new. fit_calls (observed st') = fit_calls (observed st) @ new \<and>
           map call_combination new = take (length new) combos \<and>
           (\<forall>c \<in> set new. shuffle (gs_cv (call_gscv c))) \<and>
           (r = None \<longrightarrow> length new = length combos)"
  using assms
proof (induction combos arbitrary: st)
  case Nil
  then show ?case by (simp add: run_loop_def)
next
  case (Cons c combos)
  obtain r1 s1 where b: "run_body lib amb c st = (r1, s1)" by (cases "run_body lib amb c st")
  from run_body_calls [OF b]
  consider (stopped) "r1 \<noteq> None" "fit_calls (observed s1) = fit_calls (observed st)"
    | (called) call where "fit_calls (observed s1) = fit_calls (observed st) @ [call]"
        "call_combination call = c" "shuffle (gs_cv (call_gscv call))"
    by blast
  then show ?case
  proof cases
    case stopped
    with b Cons.prems have "st' = s1" "r \<noteq> None"
      by (auto simp: run_loop_def split: option.splits)
    with stopped show ?thesis by simp
  next
    case called
    show ?thesis
    proof (cases r1)
      case None
      with b Cons.prems have "run_loop lib amb combos s1 = (r, st')"
        by (simp add: run_loop_def)
      from Cons.IH [OF this] obtain new where
        new: "fit_calls (observed st') = fit_calls (observed s1) @ new"
          "map call_combination new = take (length new) combos"
          "\<forall>c \<in> set new. shuffle (gs_cv (call_gscv c))"
          "r = None \<longrightarrow> length new = length combos" by blast
      show ?thesis
        by (rule exI [of _ "call # new"]) (use new called in simp)
    next
      case (Some e)
      with b Cons.prems have "st' = s1" "r = Some e" by (simp_all add: run_loop_def)
      then show ?thesis
        by (intro exI [of _ "[call]"]) (use called in simp)
    qed
  qed
qed

lemma recorded_all_fitted:
  "recorded lib calls results \<Longrightarrow> k < length calls \<Longrightarrow> fit_of lib (calls ! k) \<noteq> Inl e"
proof -
  assume r: "recorded lib calls results" and k: "k < length calls"
  from r obtain res where "results = Some res"
    and res: "map (\<lambda>r. Inr (snd r)) res = map (fit_of lib) calls"
    by (cases results) (simp_all add: recorded_def)
  then have "length res = length calls" by (metis length_map)
  with k res have "fit_of lib (calls ! k) = Inr (snd (res ! k))"
    by (metis nth_map)
  then show ?thesis by simp
qed

lemma run_body_recorded:
  assumes "recorded lib (fit_calls (observed st)) (results_attr (self st))"
    and "run_body lib amb c st = (r, st')"
  shows "case r of
           None \<Rightarrow> recorded lib (fit_calls (observed st')) (results_attr (self st'))
         | Some e \<Rightarrow> recorded lib (fit_calls (observed st')) (results_attr (self st')) \<or>
                     fit_failed_last lib e st'"
  using assms
  by (cases c)
     (auto simp: run_body_eq Let_def recorded_def fit_of_def fit_failed_last_def
           split: sum.splits option.splits)

lemma run_loop_recorded:
  assumes "recorded lib (fit_calls (observed st)) (results_attr (self st))"
    and "run_loop lib amb combos st = (r, st')"
  shows "case r of
           None \<Rightarrow> recorded lib (fit_calls (observed st')) (results_attr (self st'))
         | Some e \<Rightarrow> recorded lib (fit_calls (observed st')) (results_attr (self st')) \<or>
                     fit_failed_last lib e st'"
proof -
  let ?I = "\<lambda>s. recorded lib (fit_calls (observed s)) (results_attr (self s))"
  have "case for_each (run_body lib amb) combos st of
          (None, s') \<Rightarrow> ?I s'
        | (Some e, s') \<Rightarrow> ?I s' \<or> fit_failed_last lib e s'"
    using assms(1)
  proof (rule for_each_invariant)
    fix x s s' assume "?I s" and "run_body lib amb x s = (None, s')"
    from run_body_recorded [OF this] show "?I s'" by simp
  next
    fix x s e s' assume "?I s" and "run_body lib amb x s = (Some e, s')"
    from run_body_recorded [OF this] show "?I s' \<or> fit_failed_last lib e s'" by simp
  qed
  with assms(2) show ?thesis by (cases r) (simp_all add: run_loop_def)
qed

lemma failed_call_is_last:
  assumes "k < length calls" and "fit_of lib (calls ! k) = Inl e"
    and "calls \<noteq> []" and "fit_of lib (last calls) = Inl e'"
    and "recorded lib (butlast calls) results"
  shows "e' = e \<and> Suc k = length calls \<and> recorded lib (take k calls) results"
proof -
  have "\<not> k < length (butlast calls)"
  proof
    assume "k < length (butlast calls)"
    then have "fit_of lib (butlast calls ! k) \<noteq> Inl e"
      using assms(5) recorded_all_fitted by blast
    moreover have "butlast calls ! k = calls ! k"
      using \<open>k < length (butlast calls)\<close> by (simp add: nth_butlast)
    ultimately show False using assms(2) by simp
  qed
  with assms(1) have k: "Suc k = length calls" by simp
  then have k': "k = length calls - 1" by arith
  have "last calls = calls ! k" using assms(3) unfolding k' by (rule last_conv_nth)
  with assms(2,4) have "e' = e" by simp
  moreover have "take k calls = butlast calls" unfolding k' by (simp add: butlast_conv_take)
  ultimately show ?thesis using k assms(5) by simp
qed

lemma run_failure_propagates_aux:
  fixes lib :: "('s, 'x, 'o, 'w) library"
  assumes "run lib amb hw self0 = (raised, self1, obs)"
    and "k < length (fit_calls obs)"
    and "fit_of lib (fit_calls obs ! k) = Inl e"
  shows "raised = Some e \<and> Suc k = length (fit_calls obs) \<and>
         recorded lib (take k (fit_calls obs)) (results_attr self1) \<and>
         (\<exists>given ds es gs rs.
            datasets self0 = Some given \<and> check_datasets lib given = Inr ds \<and>
            check_estimators lib (estimators self0) = Inr es \<and>
            check_param_grids lib (estimators self0) = Inr gs \<and>
            check_random_states lib (random_state self0) (experiment_repetitions self0) = Inr rs \<and>
            map call_combination (fit_calls obs) = take (Suc k) (product3 rs ds (zip es gs)))"
proof (cases rule: run_cases [where obj = self0 and lib = lib and amb = amb and hw = hw])
  case absent
  with assms(1,2) show ?thesis by (auto simp: run_absent initial_trace_def)
next
  case (invalid e' self')
  with assms(1,2) show ?thesis by (auto simp: initial_trace_def)
next
  case (loop given ds es gs rs)
  let ?combos = "product3 rs ds (zip es gs)"
  let ?st0 = "loop_start hw self0 ds es gs rs :: ('s, 'x, 'o, 'w) run_state"
  obtain r st where l: "run_loop lib amb ?combos ?st0 = (r, st)"
    by (cases "run_loop lib amb ?combos ?st0")
  have "run lib amb hw self0 = (r, self st, observed st)"
    using run_reaches_loop [OF loop, of amb hw] l by simp
  with assms(1) have eq: "raised = r" "self1 = self st" "obs = observed st" by simp_all
  have start: "recorded lib (fit_calls (observed ?st0)) (results_attr (self ?st0))"
    by (simp add: loop_start_def initial_trace_def recorded_def)
  note fin = run_loop_recorded [OF start l]
  have notrec: "\<not> recorded lib (fit_calls (observed st)) (results_attr (self st))"
    using assms(2,3) eq recorded_all_fitted by blast
  with fin obtain e' where r: "r = Some e'" and last: "fit_failed_last lib e' st"
    by (cases r) auto
  from last have "e' = e \<and> Suc k = length (fit_calls obs) \<and>
      recorded lib (take k (fit_calls obs)) (results_attr self1)"
    unfolding fit_failed_last_def using failed_call_is_last assms(2,3) eq by blast
  moreover
  from run_loop_calls [OF l] obtain new where
    "fit_calls (observed st) = fit_calls (observed ?st0) @ new"
    "map call_combination new = take (length new) ?combos" by blast
  then have "map call_combination (fit_calls obs) = take (length (fit_calls obs)) ?combos"
    using eq by (simp add: loop_start_def initial_trace_def)
  ultimately show ?thesis using r eq loop by auto
qed

lemma for_each_scored:
  assumes "all_scored lib st"
    and "for_each body xs st = (r, st')"
    and "\<And>x s r s'. all_scored lib s \<Longrightarrow> body x s = (r, s') \<Longrightarrow>
           (case r of None \<Rightarrow> all_scored lib s' | Some e \<Rightarrow> stopped_scored lib e s')"
  shows "case r of None \<Rightarrow> all_scored lib st' | Some e \<Rightarrow> stopped_scored lib e st'"
proof -
  have "case for_each body xs st of
          (None, s') \<Rightarrow> all_scored lib s'
        | (Some e, s') \<Rightarrow> stopped_scored lib e s'"
    using assms(1)
  proof (rule for_each_invariant)
    fix x s s' assume "all_scored lib s" "body x s = (None, s')"
    from assms(3) [OF this] show "all_scored lib s'" by simp
  next
    fix x s e s' assume "all_scored lib s" "body x s = (Some e, s')"
    from assms(3) [OF this] show "stopped_scored lib e s'" by simp
  qed
  with assms(2) show ?thesis by (cases r) simp_all
qed

lemma dataset_body_scored:
  assumes "all_scored lib st"
    and "dataset_body lib ei cv_obj ci oi om si sc item st = (r, st')"
  shows "case r of None \<Rightarrow> all_scored lib st' | Some e \<Rightarrow> stopped_scored lib e st'"
  using assms
  by (cases item)
     (auto simp: dataset_body_def Let_def all_scored_def stopped_scored_def scored_def
                 score_failed_last_def score_of_def
           split: option.splits sum.splits)

lemma all_scored_stopped: "all_scored lib st \<Longrightarrow> stopped_scored lib e st"
  by (simp add: stopped_scored_def)

lemma all_scored_bself:
  "cv_scores_attr b = cv_scores_attr (bself st) \<Longrightarrow>
   all_scored lib (st\<lparr>bself := b\<rparr>) = all_scored lib st"
  "all_scored lib (st\<lparr>clf := c\<rparr>) = all_scored lib st"
  by (simp_all add: all_scored_def)

lemma scorer_body_scored:
  assumes "all_scored lib st"
    and "scorer_body lib ei cv_obj ci oi om item st = (r, st')"
  shows "case r of None \<Rightarrow> all_scored lib st' | Some e \<Rightarrow> stopped_scored lib e st'"
proof (cases item)
  case (Pair si sc)
  show ?thesis
  proof (cases "datasets_values (bself st)")
    case (Inl e)
    with Pair assms show ?thesis
      by (auto simp: scorer_body_def all_scored_stopped)
  next
    case (Inr vs)
    with Pair assms(2) have
      "for_each (dataset_body lib ei cv_obj ci oi om si sc) (enumerate_list vs) st = (r, st')"
      by (simp add: scorer_body_def)
    with assms(1) show ?thesis
      by (rule for_each_scored) (rule dataset_body_scored)
  qed
qed

lemma oversampling_method_body_scored:
  assumes "all_scored lib st"
    and "oversampling_method_body lib ei seed cv_obj ci oi st = (r, st')"
  shows "case r of None \<Rightarrow> all_scored lib st' | Some e \<Rightarrow> stopped_scored lib e st'"
proof (cases "py_index (oversampling_methods (bself st)) oi")
  case (Inl e)
  with assms show ?thesis
    by (auto simp: oversampling_method_body_def all_scored_stopped)
next
  case (Inr om)
  note om = this
  show ?thesis
  proof (cases om)
    case None
    with om assms show ?thesis
      by (auto simp: oversampling_method_body_def all_scored_stopped)
  next
    case (Some m)
    note m = this
    show ?thesis
    proof (cases "set_params lib m seed")
      case (Inl e)
      with om m assms show ?thesis
        by (auto simp: oversampling_method_body_def all_scored_stopped)
    next
      case (Inr m')
      let ?b1 = "(bself st)\<lparr>oversampling_methods := (oversampling_methods (bself st))[oi := Some m']\<rparr>"
      let ?st1 = "st\<lparr>bself := ?b1\<rparr>"
      have s1: "all_scored lib ?st1" using assms(1) by (simp add: all_scored_def)
      show ?thesis
      proof (cases "scorers_attr (bself st)")
        case None
        with om m Inr assms(2) have "r = Some (AttributeError ''scorers_'')" "st' = ?st1"
          by (simp_all add: oversampling_method_body_def Let_def)
        with s1 show ?thesis by (simp add: all_scored_stopped)
      next
        case (Some scorers)
        with om m Inr assms(2) have
          "for_each (scorer_body lib ei cv_obj ci oi (Some m')) (enumerate_list scorers) ?st1 = (r, st')"
          by (simp add: oversampling_method_body_def Let_def)
        with s1 show ?thesis
          by (rule for_each_scored) (rule scorer_body_scored)
      qed
    qed
  qed
qed

lemma classifier_body_scored:
  assumes "all_scored lib st"
    and "classifier_body lib ei seed cv_obj ci st = (r, st')"
  shows "case r of None \<Rightarrow> all_scored lib st' | Some e \<Rightarrow> stopped_scored lib e st'"
proof (cases "py_index (classifiers (bself st)) ci")
  case (Inl e)
  with assms show ?thesis
    by (auto simp: classifier_body_def all_scored_stopped)
next
  case (Inr c)
  note c = this
  show ?thesis
  proof (cases "set_params lib c seed")
    case (Inl e)
    with c assms(2) have "r = Some e" "st' = st\<lparr>clf := Some (Stage c)\<rparr>"
      by (simp_all add: classifier_body_def)
    with assms(1) show ?thesis by (simp add: all_scored_stopped all_scored_bself)
  next
    case (Inr c')
    let ?b1 = "(bself st)\<lparr>classifiers := (classifiers (bself st))[ci := c']\<rparr>"
    let ?st1 = "st\<lparr>bself := ?b1, clf := Some (Stage c')\<rparr>"
    have s1: "all_scored lib ?st1" using assms(1) by (simp add: all_scored_def)
    from c Inr assms(2) have
      "for_each (oversampling_method_body lib ei seed cv_obj ci)
         [0..<length (oversampling_methods ?b1)] ?st1 = (r, st')"
      by (simp add: classifier_body_def Let_def)
    with s1 show ?thesis
      by (rule for_each_scored) (rule oversampling_method_body_scored)
  qed
qed

lemma experiment_body_scored:
  assumes "all_scored lib st"
    and "experiment_body lib item st = (r, st')"
  shows "case r of None \<Rightarrow> all_scored lib st' | Some e \<Rightarrow> stopped_scored lib e st'"
proof (cases item)
  case (Pair ei seed)
  with assms(2) have
    "for_each (classifier_body lib ei seed (StratifiedKFold (n_splits (bself st)) seed))
       [0..<length (classifiers (bself st))] st = (r, st')"
    by (simp add: experiment_body_def Let_def)
  with assms(1) show ?thesis
    by (rule for_each_scored) (rule classifier_body_scored)
qed

lemma initialize_parameters_scores:
  "initialize_parameters fs lib b0 = (None, b1) \<Longrightarrow> cv_scores_attr b1 = Some []"
  by (auto simp: initialize_parameters_def initialize_rest_def Let_def
           split: datasets_arg.splits option.splits sum.splits prod.splits)

lemma binary_run_scored:
  assumes "binary_run fs lib b0 = (r, st)"
  shows "evaluations st = [] \<or>
         (case r of None \<Rightarrow> all_scored lib st | Some e \<Rightarrow> stopped_scored lib e st)"
proof (cases "initialize_parameters fs lib b0")
  case (Pair r0 b1)
  show ?thesis
  proof (cases r0)
    case (Some e)
    with Pair assms show ?thesis by (auto simp: binary_run_def)
  next
    case None
    note init = Pair [unfolded None]
    show ?thesis
    proof (cases "binary_random_states_attr b1")
      case None
      with init assms show ?thesis by (auto simp: binary_run_def)
    next
      case (Some seeds)
      let ?st0 = "\<lparr>bself = b1, clf = None, evaluations = [], printed = []\<rparr>"
      have s0: "all_scored lib ?st0"
        using initialize_parameters_scores [OF init] by (simp add: all_scored_def scored_def)
      from init Some assms have
        "for_each (experiment_body lib) (enumerate_list seeds) ?st0 = (r, st)"
        by (simp add: binary_run_def)
      with s0 have "case r of None \<Rightarrow> all_scored lib st | Some e \<Rightarrow> stopped_scored lib e st"
        by (rule for_each_scored) (rule experiment_body_scored)
      then show ?thesis by simp
    qed
  qed
qed

lemma scored_all_succeed:
  "scored lib evs scores \<Longrightarrow> k < length evs \<Longrightarrow> score_of lib (evs ! k) \<noteq> Inl e"
proof -
  assume r: "scored lib evs scores" and k: "k < length evs"
  from r obtain sc where "scores = Some sc" and sc: "map Inr sc = map (score_of lib) evs"
    by (cases scores) (simp_all add: scored_def)
  then have "length sc = length evs" by (metis length_map)
  with k sc have "score_of lib (evs ! k) = Inr (sc ! k)"
    by (metis nth_map)
  then show ?thesis by simp
qed

lemma failed_evaluation_is_last:
  assumes "k < length evs" and "score_of lib (evs ! k) = Inl e"
    and "evs \<noteq> []" and "score_of lib (last evs) = Inl e'"
    and "scored lib (butlast evs) scores"
  shows "e' = e \<and> Suc k = length evs \<and> scored lib (take k evs) scores"
proof -
  have "\<not> k < length (butlast evs)"
  proof
    assume "k < length (butlast evs)"
    then have "score_of lib (butlast evs ! k) \<noteq> Inl e"
      using assms(5) scored_all_succeed by blast
    moreover have "butlast evs ! k = evs ! k"
      using \<open>k < length (butlast evs)\<close> by (simp add: nth_butlast)
    ultimately show False using assms(2) by simp
  qed
  with assms(1) have k: "Suc k = length evs" by simp
  then have k': "k = length evs - 1" by arith
  have "last evs = evs ! k" using assms(3) unfolding k' by (rule last_conv_nth)
  with assms(2,4) have "e' = e" by simp
  moreover have "take k evs = butlast evs" unfolding k' by (simp add: butlast_conv_take)
  ultimately show ?thesis using k assms(5) by simp
qed

lemma binary_run_failure_propagates_aux:
  assumes "binary_run fs lib b0 = (raised, st)"
    and "k < length (evaluations st)"
    and "score_of lib (evaluations st ! k) = Inl e"
  shows "raised = Some e \<and> Suc k = length (evaluations st) \<and>
         scored lib (take k (evaluations st)) (cv_scores_attr (bself st))"
proof -
  from assms(2) have ne: "evaluations st \<noteq> []" by auto
  have notall: "\<not> all_scored lib st"
    using assms(2,3) scored_all_succeed unfolding all_scored_def by blast
  from binary_run_scored [OF assms(1)] ne notall
  obtain e' where r: "raised = Some e'" and l: "score_failed_last lib e' st"
    by (cases raised) (auto simp: stopped_scored_def)
  from l have "e' = e \<and> Suc k = length (evaluations st) \<and>
      scored lib (take k (evaluations st)) (cv_scores_attr (bself st))"
    unfolding score_failed_last_def using failed_evaluation_is_last assms(2,3) by blast
  with r show ?thesis by simp
qed



lemma product3_product: "product3 xs ys zs = List.product xs (List.product ys zs)"
  by (induction xs) (simp_all add: product3_nested List.product_concat_map map_concat comp_def)

lemma product3_nth:
  assumes "i < length xs" and "j < length ys" and "k < length zs"
  shows "product3 xs ys zs ! ((i * length ys + j) * length zs + k) = (xs ! i, ys ! j, zs ! k)"
proof -
  let ?m = "length ys * length zs"
  let ?n = "(i * length ys + j) * length zs + k"
  have inner: "j * length zs + k < ?m"
  proof -
    have "j * length zs + k < j * length zs + length zs" using assms(3) by simp
    also have "\<dots> = Suc j * length zs" by simp
    also have "\<dots> \<le> length ys * length zs"
      using assms(2) by (intro mult_le_mono1) simp
    finally show ?thesis .
  qed
  have n: "?n = i * ?m + (j * length zs + k)" by (simp add: algebra_simps)
  from inner have pos: "?m \<noteq> 0" by (cases "?m") simp_all
  have d: "?n div ?m = i" and m: "?n mod ?m = j * length zs + k"
    using inner pos unfolding n by simp_all
  have "?n < Suc i * ?m" using inner unfolding n by simp
  also have "\<dots> \<le> length xs * ?m" using assms(1) by (intro mult_le_mono1) simp
  finally have lt: "?n < length xs * length (List.product ys zs)" by simp
  from assms(3) have pos2: "length zs \<noteq> 0" by (cases zs) simp_all
  have d2: "(j * length zs + k) div length zs = j" and m2: "(j * length zs + k) mod length zs = k"
    using assms(3) pos2 by simp_all
  have lt2: "j * length zs + k < length ys * length zs" by (rule inner)
  show ?thesis
    unfolding product3_product
    by (simp only: product_nth [OF lt] length_product d m product_nth [OF lt2] d2 m2)
qed

lemma resampling_estimators_nested:
  "resampling_estimators rs cs =
     concat (map (\<lambda>r. map (\<lambda>c. if fst (snd r) = None then [c] else [r, c]) cs) rs)"
  by (induction rs) (simp_all add: resampling_estimators_def product2_def map_concat comp_def)

lemma concat_map_Nil: "concat (map (\<lambda>x. []) xs) = []"
  by (induction xs) simp_all

lemma run_empty_datasets:
  assumes "datasets self0 = Some given" and "check_datasets lib given = Inr []"
    and "check_estimators lib (estimators self0) = Inr es"
    and "check_param_grids lib (estimators self0) = Inr gs"
    and "check_random_states lib (random_state self0) (experiment_repetitions self0) = Inr rs"
  shows "run lib amb hw self0 =
           (None,
            self0\<lparr>estimators_attr := Some es, param_grids_attr := Some gs,
                   random_states_attr := Some rs, results_attr := Some []\<rparr>,
            (initial_trace hw)\<lparr>max_value := Some 0\<rparr>)"
  unfolding run_reaches_loop [OF assms]
  by (simp add: run_loop_def loop_start_def product3_nested concat_map_Nil)

lemma run_validator_raises:
  assumes "datasets self0 = Some given"
  shows "check_datasets lib given = Inl e \<Longrightarrow> run lib amb hw self0 = (Some e, self0, initial_trace hw)"
    and "check_datasets lib given = Inr ds \<Longrightarrow> check_estimators lib (estimators self0) = Inl e \<Longrightarrow>
         run lib amb hw self0 = (Some e, self0, initial_trace hw)"
  using assms by (simp_all add: run_def initial_trace_def)

lemma run_calls_prefix:
  fixes lib :: "('s, 'x, 'o, 'w) library"
  assumes "datasets self0 = Some given" and "check_datasets lib given = Inr ds"
    and "check_estimators lib (estimators self0) = Inr es"
    and "check_param_grids lib (estimators self0) = Inr gs"
    and "check_random_states lib (random_state self0) (experiment_repetitions self0) = Inr rs"
    and "run lib amb hw self0 = (raised, self1, obs)"
  shows "map call_combination (fit_calls obs) =
           take (length (fit_calls obs)) (product3 rs ds (zip es gs))"
    and "\<forall>c \<in> set (fit_calls obs). shuffle (gs_cv (call_gscv c))"
proof -
  let ?combos = "product3 rs ds (zip es gs)"
  let ?st0 = "loop_start hw self0 ds es gs rs :: ('s, 'x, 'o, 'w) run_state"
  obtain r st where loop: "run_loop lib amb ?combos ?st0 = (r, st)"
    by (cases "run_loop lib amb ?combos ?st0")
  have "run lib amb hw self0 = (r, self st, observed st)"
    using run_reaches_loop [OF assms(1-5), of amb hw] loop by simp
  with assms(6) have eq: "obs = observed st" by simp
  from run_loop_calls [OF loop] obtain new where
    new: "fit_calls (observed st) = fit_calls (observed ?st0) @ new"
      "map call_combination new = take (length new) ?combos"
      "\<forall>c \<in> set new. shuffle (gs_cv (call_gscv c))" by blast
  have "fit_calls obs = new"
    using new(1) eq by (simp add: loop_start_def initial_trace_def)
  with new(2,3) show "map call_combination (fit_calls obs) =
           take (length (fit_calls obs)) (product3 rs ds (zip es gs))"
    and "\<forall>c \<in> set (fit_calls obs). shuffle (gs_cv (call_gscv c))" by simp_all
qed

lemma splitter_assign:
  assumes "sp\<lparr>shuffle := False, split_random_state := None\<rparr> =
           sp'\<lparr>shuffle := False, split_random_state := None\<rparr>"
  shows "sp\<lparr>shuffle := True, split_random_state := r\<rparr> =
         sp'\<lparr>shuffle := True, split_random_state := r\<rparr>"
  using arg_cong [OF assms, of "\<lambda>x. x\<lparr>shuffle := True, split_random_state := r\<rparr>"] by simp

lemma prepared_cv_unset:
  assumes "unset_cv c = unset_cv c'"
  shows "prepared_cv lib c y b seed = prepared_cv lib c' y b seed"
proof (cases c)
  case (CvObject sp)
  with assms obtain sp' where c': "c' = CvObject sp'"
    and eq: "sp\<lparr>shuffle := False, split_random_state := None\<rparr> =
             sp'\<lparr>shuffle := False, split_random_state := None\<rparr>"
    by (cases c') (simp_all add: unset_cv_def)
  from splitter_assign [OF eq, of seed] show ?thesis
    by (simp add: CvObject c' prepared_cv_def check_cv_def)
next
  case (CvOther x)
  with assms have "c' = CvOther x" by (cases c') (simp_all add: unset_cv_def)
  with CvOther show ?thesis by simp
qed

lemma assign_cv_unset:
  "unset_cv c = unset_cv c' \<Longrightarrow> unset_cv (assign_cv c sp) = unset_cv (assign_cv c' sp)"
  by (cases c; cases c') (auto simp: unset_cv_def assign_cv_def)

lemma unset_assign_cv:
  "check_cv lib c y b = Inr cv0 \<Longrightarrow>
   unset_cv (assign_cv c (cv0\<lparr>shuffle := sh, split_random_state := r\<rparr>)) = unset_cv c"
  by (cases c) (auto simp: unset_cv_def assign_cv_def check_cv_def)

lemma run_body_prepared:
  "run_body lib amb (seed, (dataset_name, X, y), (estimator, param_grid)) st =
     (case prepared_cv lib (cv (self st)) y (is_classifier lib estimator) seed of
        Inl e \<Rightarrow> (Some e, st)
      | Inr cv2 \<Rightarrow>
          (let self1 = (self st)\<lparr>cv := assign_cv (cv (self st)) cv2\<rparr>;
               gscv = \<lparr>gs_estimator = estimator, gs_param_grid = param_grid,
                       gs_scoring = scoring (self st), gs_cv = cv2, gs_refit = False,
                       gs_n_jobs = n_jobs (self st)\<rparr>;
               call = \<lparr>call_dataset_name = dataset_name, call_gscv = gscv, call_X = X,
                       call_y = y, call_ambient = amb (iterations st)\<rparr>;
               calls = fit_calls (observed st) @ [call]
           in case fit lib gscv X y (amb (iterations st)) of
                Inl e \<Rightarrow> (Some e, st\<lparr>self := self1, observed := (observed st)\<lparr>fit_calls := calls\<rparr>\<rparr>)
              | Inr fitted \<Rightarrow>
                  (case results_attr (self st) of
                     None \<Rightarrow> (Some (AttributeError ''results_''),
                              st\<lparr>self := self1, observed := (observed st)\<lparr>fit_calls := calls\<rparr>\<rparr>)
                   | Some results \<Rightarrow>
                       (None,
                        \<lparr>self = self1\<lparr>results_attr := Some (results @ [(dataset_name, fitted)])\<rparr>,
                         observed = (observed st)\<lparr>fit_calls := calls, progress := Suc (iterations st)\<rparr>,
                         iterations = Suc (iterations st)\<rparr>))))"
  by (simp add: run_body_eq prepared_cv_def Let_def split: sum.splits)

lemma prepared_cv_seed:
  "prepared_cv lib c y b seed = Inr cv2 \<Longrightarrow> split_random_state cv2 = seed \<and> shuffle cv2"
  by (auto simp: prepared_cv_def split: sum.splits)

lemma run_body_related:
  fixes lib :: "('s, 'x, 'o, 'w) library"
  assumes rel: "same_up_to_cv (self s) (self t)"
    and seeded: "fst c \<noteq> None"
    and det: "\<And>g X y w w'. split_random_state (gs_cv g) \<noteq> None \<Longrightarrow>
                fit lib g X y w = fit lib g X y w'"
  shows "fst (run_body lib amb c s) = fst (run_body lib amb' c t) \<and>
         same_up_to_cv (self (snd (run_body lib amb c s))) (self (snd (run_body lib amb' c t)))"
proof -
  obtain seed dataset_name X y estimator param_grid
    where c: "c = (seed, (dataset_name, X, y), (estimator, param_grid))"
    by (cases c) auto
  from rel have u: "unset_cv (cv (self s)) = unset_cv (cv (self t))"
    and sc: "scoring (self t) = scoring (self s)"
    and nj: "n_jobs (self t) = n_jobs (self s)"
    and res: "results_attr (self t) = results_attr (self s)"
    unfolding same_up_to_cv_def by simp_all
  have p: "prepared_cv lib (cv (self t)) y (is_classifier lib estimator) seed =
           prepared_cv lib (cv (self s)) y (is_classifier lib estimator) seed"
    using u [symmetric] by (rule prepared_cv_unset)
  show ?thesis
  proof (cases "prepared_cv lib (cv (self s)) y (is_classifier lib estimator) seed")
    case (Inl e)
    have "run_body lib amb c s = (Some e, s)" "run_body lib amb' c t = (Some e, t)"
      using Inl p by (simp_all add: c run_body_prepared)
    with rel show ?thesis by simp
  next
    case (Inr cv2)
    note cv2 = this
    let ?g = "\<lparr>gs_estimator = estimator, gs_param_grid = param_grid,
               gs_scoring = scoring (self s), gs_cv = cv2, gs_refit = False,
               gs_n_jobs = n_jobs (self s)\<rparr>"
    have "split_random_state (gs_cv ?g) \<noteq> None"
      using prepared_cv_seed [OF cv2] seeded c by simp
    then have f: "fit lib ?g X y (amb' (iterations t)) = fit lib ?g X y (amb (iterations s))"
      by (rule det)
    have a: "unset_cv (assign_cv (cv (self s)) cv2) = unset_cv (assign_cv (cv (self t)) cv2)"
      using u by (rule assign_cv_unset)
    let ?za = "assign_cv (cv (self s)) cv2" and ?zb = "assign_cv (cv (self t)) cv2"
    show ?thesis
    proof (cases "fit lib ?g X y (amb (iterations s))")
      case (Inl e)
      have "fst (run_body lib amb c s) = Some e"
        "self (snd (run_body lib amb c s)) = (self s)\<lparr>cv := ?za\<rparr>"
        using cv2 Inl by (simp_all add: c run_body_prepared)
      moreover have "fst (run_body lib amb' c t) = Some e"
        "self (snd (run_body lib amb' c t)) = (self t)\<lparr>cv := ?zb\<rparr>"
        using cv2 Inl p f by (simp_all add: c run_body_prepared sc nj)
      ultimately show ?thesis using a sc nj res by (simp add: same_up_to_cv_def)
    next
      case (Inr fitted)
      note fitted = this
      show ?thesis
      proof (cases "results_attr (self s)")
        case None
        have "fst (run_body lib amb c s) = Some (AttributeError ''results_'')"
          "self (snd (run_body lib amb c s)) = (self s)\<lparr>cv := ?za\<rparr>"
          using cv2 fitted None by (simp_all add: c run_body_prepared)
        moreover have "fst (run_body lib amb' c t) = Some (AttributeError ''results_'')"
          "self (snd (run_body lib amb' c t)) = (self t)\<lparr>cv := ?zb\<rparr>"
          using cv2 fitted None p f by (simp_all add: c run_body_prepared sc nj res)
        ultimately show ?thesis using a sc nj res by (simp add: same_up_to_cv_def)
      next
        case (Some results)
        let ?new = "Some (results @ [(dataset_name, fitted)])"
        have "fst (run_body lib amb c s) = None"
          "self (snd (run_body lib amb c s)) = (self s)\<lparr>cv := ?za, results_attr := ?new\<rparr>"
          using cv2 fitted Some by (simp_all add: c run_body_prepared)
        moreover have "fst (run_body lib amb' c t) = None"
          "self (snd (run_body lib amb' c t)) = (self t)\<lparr>cv := ?zb, results_attr := ?new\<rparr>"
          using cv2 fitted Some p f by (simp_all add: c run_body_prepared sc nj res)
        ultimately show ?thesis using a sc nj by (simp add: same_up_to_cv_def)
      qed
    qed
  qed
qed

lemma product3_seed: "c \<in> set (product3 rs ds zs) \<Longrightarrow> fst c \<in> set rs"
  by (auto simp: product3_nested)

lemma run_loop_related:
  fixes lib :: "('s, 'x, 'o, 'w) library"
  assumes rel: "same_up_to_cv (self s) (self t)"
    and seeded: "\<And>c. c \<in> set combos \<Longrightarrow> fst c \<noteq> None"
    and det: "\<And>g X y w w'. split_random_state (gs_cv g) \<noteq> None \<Longrightarrow>
                fit lib g X y w = fit lib g X y w'"
  shows "fst (run_loop lib amb combos s) = fst (run_loop lib amb' combos t) \<and>
         same_up_to_cv (self (snd (run_loop lib amb combos s)))
           (self (snd (run_loop lib amb' combos t)))"
  unfolding run_loop_def
proof (rule for_each_related [where R = "\<lambda>s t. same_up_to_cv (self s) (self t)"])
  show "same_up_to_cv (self s) (self t)" by (rule rel)
next
  fix x and s t :: "('s, 'x, 'o, 'w) run_state"
  assume "x \<in> set combos" and "same_up_to_cv (self s) (self t)"
  then show "fst (run_body lib amb x s) = fst (run_body lib amb' x t) \<and>
       same_up_to_cv (self (snd (run_body lib amb x s))) (self (snd (run_body lib amb' x t)))"
    using seeded det by (intro run_body_related) auto
qed

lemma run_body_configuration:
  assumes "same_configuration a (self s)"
  shows "same_configuration a (self (snd (run_body lib amb c s)))"
proof -
  obtain seed dataset_name X y estimator param_grid
    where c: "c = (seed, (dataset_name, X, y), (estimator, param_grid))"
    by (cases c) auto
  show ?thesis
  proof (cases "check_cv lib (cv (self s)) y (is_classifier lib estimator)")
    case (Inl e)
    then show ?thesis using assms by (simp add: c run_body_eq)
  next
    case (Inr cv0)
    have u: "unset_cv (assign_cv (cv (self s)) (cv0\<lparr>shuffle := True, split_random_state := seed\<rparr>))
        = unset_cv (cv (self s))"
      using Inr by (rule unset_assign_cv)
    show ?thesis
      using assms Inr u
      by (simp add: c run_body_eq Let_def same_configuration_def split: sum.splits option.splits)
  qed
qed

lemma run_loop_configuration:
  assumes "same_configuration a (self s)"
  shows "same_configuration a (self (snd (run_loop lib amb combos s)))"
proof -
  have "case for_each (run_body lib amb) combos s of
          (None, s') \<Rightarrow> same_configuration a (self s')
        | (Some e, s') \<Rightarrow> same_configuration a (self s')"
    using assms
  proof (rule for_each_invariant)
    fix x s1 s' assume "same_configuration a (self s1)" "run_body lib amb x s1 = (None, s')"
    then show "same_configuration a (self s')"
      using run_body_configuration [of a s1 lib amb x] by simp
  next
    fix x s1 e s' assume "same_configuration a (self s1)" "run_body lib amb x s1 = (Some e, s')"
    then show "same_configuration a (self s')"
      using run_body_configuration [of a s1 lib amb x] by simp
  qed
  then show ?thesis
    by (cases "for_each (run_body lib amb) combos s")
       (auto simp: run_loop_def split: option.splits)
qed

lemma run_validator_raises_late:
  assumes "datasets self0 = Some given" and "check_datasets lib given = Inr ds"
    and "check_estimators lib (estimators self0) = Inr es"
  shows "check_param_grids lib (estimators self0) = Inl e \<Longrightarrow>
         run lib amb hw self0 = (Some e, self0\<lparr>estimators_attr := Some es\<rparr>, initial_trace hw)"
    and "check_param_grids lib (estimators self0) = Inr gs \<Longrightarrow>
         check_random_states lib (random_state self0) (experiment_repetitions self0) = Inl e \<Longrightarrow>
         run lib amb hw self0 =
           (Some e, self0\<lparr>estimators_attr := Some es, param_grids_attr := Some gs\<rparr>,
            initial_trace hw)"
  using assms by (simp_all add: run_def initial_trace_def)

lemma same_configuration_refl: "same_configuration a a"
  by (simp add: same_configuration_def)

lemma run_configuration:
  fixes lib :: "('s, 'x, 'o, 'w) library"
  shows "same_configuration a (fst (snd (run lib amb hw a)))"
proof (cases "datasets a")
  case None
  then show ?thesis by (simp add: run_absent same_configuration_refl)
next
  case (Some given)
  note g = this
  show ?thesis
  proof (cases "check_datasets lib given")
    case (Inl e)
    with g show ?thesis by (simp add: run_validator_raises(1) same_configuration_refl)
  next
    case (Inr ds)
    note d = this
    show ?thesis
    proof (cases "check_estimators lib (estimators a)")
      case (Inl e)
      with g d show ?thesis by (simp add: run_validator_raises(2) same_configuration_refl)
    next
      case (Inr es)
      note e = this
      show ?thesis
      proof (cases "check_param_grids lib (estimators a)")
        case (Inl err)
        with g d e show ?thesis
          by (simp add: run_validator_raises_late(1) same_configuration_def)
      next
        case (Inr gs)
        note p = this
        show ?thesis
        proof (cases "check_random_states lib (random_state a) (experiment_repetitions a)")
          case (Inl err)
          with g d e p show ?thesis
            by (simp add: run_validator_raises_late(2) same_configuration_def)
        next
          case (Inr rs)
          let ?st0 = "loop_start hw a ds es gs rs :: ('s, 'x, 'o, 'w) run_state"
          have "same_configuration a (self ?st0)"
            by (simp add: loop_start_def same_configuration_def)
          then have "same_configuration a
              (self (snd (run_loop lib amb (product3 rs ds (zip es gs)) ?st0)))"
            by (rule run_loop_configuration)
          then show ?thesis
            by (simp add: run_reaches_loop [OF g d e p Inr])
        qed
      qed
    qed
  qed
qed

lemma run_related:
  fixes lib :: "('s, 'x, 'o, 'w) library"
  assumes conf: "same_configuration a b"
    and resolved: "\<And>rs. check_random_states lib (random_state a) (experiment_repetitions a) = Inr rs
                     \<Longrightarrow> None \<notin> set rs"
    and det: "\<And>g X y w w'. split_random_state (gs_cv g) \<noteq> None \<Longrightarrow>
                fit lib g X y w = fit lib g X y w'"
  shows "fst (run lib amb hw a) = fst (run lib amb' hw' b) \<and>
         (results_attr (fst (snd (run lib amb hw a))) = results_attr (fst (snd (run lib amb' hw' b))) \<or>
          results_attr (fst (snd (run lib amb hw a))) = results_attr a \<and>
          results_attr (fst (snd (run lib amb' hw' b))) = results_attr b)"
proof -
  from conf have u: "unset_cv (cv a) = unset_cv (cv b)" and sc: "scoring b = scoring a"
    and nj: "n_jobs b = n_jobs a" and es': "estimators b = estimators a"
    and ds': "datasets b = datasets a"
    and reps: "experiment_repetitions b = experiment_repetitions a"
    and seed: "random_state b = random_state a"
    unfolding same_configuration_def by simp_all
  show ?thesis
  proof (cases "datasets a")
    case None
    with ds' show ?thesis by (simp add: run_absent)
  next
    case (Some given)
    note g = this
    from g ds' have g': "datasets b = Some given" by simp
    show ?thesis
    proof (cases "check_datasets lib given")
      case (Inl e)
      with g g' show ?thesis by (simp add: run_validator_raises(1))
    next
      case (Inr ds)
      note d = this
      show ?thesis
      proof (cases "check_estimators lib (estimators a)")
        case (Inl e)
        then have "check_estimators lib (estimators b) = Inl e" using es' by simp
        with Inl g g' d show ?thesis by (simp add: run_validator_raises(2))
      next
        case (Inr es)
        note e = this
        then have e': "check_estimators lib (estimators b) = Inr es" using es' by simp
        show ?thesis
        proof (cases "check_param_grids lib (estimators a)")
          case (Inl err)
          then have "check_param_grids lib (estimators b) = Inl err" using es' by simp
          with Inl g g' d e e' show ?thesis by (simp add: run_validator_raises_late(1))
        next
          case (Inr gs)
          note p = this
          then have p': "check_param_grids lib (estimators b) = Inr gs" using es' by simp
          show ?thesis
          proof (cases "check_random_states lib (random_state a) (experiment_repetitions a)")
            case (Inl err)
            then have "check_random_states lib (random_state b) (experiment_repetitions b) = Inl err"
              using seed reps by simp
            with Inl g g' d e e' p p' show ?thesis by (simp add: run_validator_raises_late(2))
          next
            case (Inr rs)
            then have r': "check_random_states lib (random_state b) (experiment_repetitions b) = Inr rs"
              using seed reps by simp
            let ?combos = "product3 rs ds (zip es gs)"
            let ?sa = "loop_start hw a ds es gs rs :: ('s, 'x, 'o, 'w) run_state"
            let ?sb = "loop_start hw' b ds es gs rs :: ('s, 'x, 'o, 'w) run_state"
            have rel: "same_up_to_cv (self ?sa) (self ?sb)"
              using u sc nj by (simp add: loop_start_def same_up_to_cv_def)
            have nonnull: "None \<notin> set rs" using Inr by (rule resolved)
            have seeded: "\<And>c. c \<in> set ?combos \<Longrightarrow> fst c \<noteq> None"
              using nonnull product3_seed by fastforce
            from run_loop_related [where amb = amb and amb' = amb', OF rel seeded det]
            have "fst (run_loop lib amb ?combos ?sa) = fst (run_loop lib amb' ?combos ?sb)"
              and "results_attr (self (snd (run_loop lib amb ?combos ?sa))) =
                   results_attr (self (snd (run_loop lib amb' ?combos ?sb)))"
              by (simp_all add: same_up_to_cv_def)
            then show ?thesis
              by (simp add: run_reaches_loop [OF g d e p Inr] run_reaches_loop [OF g' d e' p' r'])
          qed
        qed
      qed
    qed
  qed
qed

section \<open>The claims\<close>




text \<open>
  Claim C2, as stated: every experiment runs through seeds, then datasets, then estimators.
  \<^verbatim>\<open>BinaryExperiment.run\<close> (lines 67 to 84) nests its loops the other way: seeds, then
  classifiers, oversampling methods and scorers, then datasets. With one seed, two datasets
  and two classifiers it evaluates both datasets for the first classifier before the second
  classifier, while the claimed order takes both classifiers on the first dataset first.
\<close>

theorem binary_run_order_counterexample:
  "map (\<lambda>m. (msg_experiment m, msg_dataset m, msg_classifier m))
     (printed (snd (binary_run example_file_system example_binary_library example_binary_experiment)))
     = [(1, ''d1'', ''LR''), (1, ''d2'', ''LR''), (1, ''d1'', ''LR2''), (1, ''d2'', ''LR2'')] \<and>
   product3 [1 :: nat] [''d1'', ''d2''] [''LR'', ''LR2'']
     = [(1, ''d1'', ''LR''), (1, ''d1'', ''LR2''), (1, ''d2'', ''LR''), (1, ''d2'', ''LR2'')] \<and>
   map (\<lambda>m. (msg_experiment m, msg_dataset m, msg_classifier m))
     (printed (snd (binary_run example_file_system example_binary_library example_binary_experiment)))
     \<noteq> product3 [1 :: nat] [''d1'', ''d2''] [''LR'', ''LR2'']"
  by code_simp

text \<open>
  Claim C2, amended: in the runners that build the generator (\<^verbatim>\<open>ExtendedExperiment\<close>,
  \<^verbatim>\<open>ResamplingExperiment\<close>, \<^verbatim>\<open>KaggleCompetition\<close>), it enumerates the Combinations in
  the nested order seeds, then datasets, then (estimator, grid) pairs, each in the order of
  its list: the Combination of the \<open>i\<close>-th seed, \<open>j\<close>-th dataset and \<open>k\<close>-th pair stands
  at position \<open>(i * |datasets| + j) * |pairs| + k\<close>; for 2 seeds, 2 datasets and 2 pairs
  the sequence is the cross product written out; and the calls of \<^verbatim>\<open>gscv.fit\<close> that
  \<^verbatim>\<open>run\<close> makes are the Combinations of that sequence from its start, in that order.
\<close>

theorem combinations_nested_order:
  fixes lib :: "('s, 'x, 'o, 'w) library"
  shows
    "product3 seeds dsets pairs =
       concat (map (\<lambda>s. concat (map (\<lambda>d. map (\<lambda>p. (s, d, p)) pairs) dsets)) seeds) \<and>
     length (product3 seeds dsets pairs) = length seeds * length dsets * length pairs \<and>
     (i < length seeds \<and> j < length dsets \<and> k < length pairs \<longrightarrow>
        product3 seeds dsets pairs ! ((i * length dsets + j) * length pairs + k)
          = (seeds ! i, dsets ! j, pairs ! k)) \<and>
     product3 [s1, s2] [d1, d2] [p1, p2] =
       [(s1, d1, p1), (s1, d1, p2), (s1, d2, p1), (s1, d2, p2),
        (s2, d1, p1), (s2, d1, p2), (s2, d2, p1), (s2, d2, p2)] \<and>
     (datasets self0 = Some given \<and> check_datasets lib given = Inr ds \<and>
      check_estimators lib (estimators self0) = Inr es \<and>
      check_param_grids lib (estimators self0) = Inr gs \<and>
      check_random_states lib (random_state self0) (experiment_repetitions self0) = Inr rs \<and>
      run lib amb hw self0 = (raised, self1, obs) \<longrightarrow>
        map call_combination (fit_calls obs) =
          take (length (fit_calls obs)) (product3 rs ds (zip es gs)))"
proof (intro conjI impI)
  show "product3 seeds dsets pairs =
       concat (map (\<lambda>s. concat (map (\<lambda>d. map (\<lambda>p. (s, d, p)) pairs) dsets)) seeds)"
    by (rule product3_nested)
  show "length (product3 seeds dsets pairs) = length seeds * length dsets * length pairs"
    by (rule length_product3)
  show "product3 [s1, s2] [d1, d2] [p1, p2] =
       [(s1, d1, p1), (s1, d1, p2), (s1, d2, p1), (s1, d2, p2),
        (s2, d1, p1), (s2, d1, p2), (s2, d2, p1), (s2, d2, p2)]"
    by (simp add: product3_def)
next
  assume "i < length seeds \<and> j < length dsets \<and> k < length pairs"
  then show "product3 seeds dsets pairs ! ((i * length dsets + j) * length pairs + k)
          = (seeds ! i, dsets ! j, pairs ! k)"
    by (simp add: product3_nth)
next
  assume a: "datasets self0 = Some given \<and> check_datasets lib given = Inr ds \<and>
      check_estimators lib (estimators self0) = Inr es \<and>
      check_param_grids lib (estimators self0) = Inr gs \<and>
      check_random_states lib (random_state self0) (experiment_repetitions self0) = Inr rs \<and>
      run lib amb hw self0 = (raised, self1, obs)"
  then have "datasets self0 = Some given" "check_datasets lib given = Inr ds"
      "check_estimators lib (estimators self0) = Inr es"
      "check_param_grids lib (estimators self0) = Inr gs"
      "check_random_states lib (random_state self0) (experiment_repetitions self0) = Inr rs"
      "run lib amb hw self0 = (raised, self1, obs)" by simp_all
  then show "map call_combination (fit_calls obs) =
          take (length (fit_calls obs)) (product3 rs ds (zip es gs))"
    by (rule run_calls_prefix(1))
qed

theorem combinations_nested_order_witness:
  "(1 :: nat) < length [Some 0, Some (5 :: int)] \<and> (0 :: nat) < length [''d1'', ''d2''] \<and>
   (1 :: nat) < length [''svc'', ''tree''] \<and>
   product3 [Some 0, Some (5 :: int)] [''d1'', ''d2''] [''svc'', ''tree''] ! 5
     = (Some 5, ''d1'', ''tree'') \<and>
   fst (run example_library (\<lambda>i. i) True example_failing_experiment)
     = Some (LibraryError ''undefined metric'') \<and>
   map call_combination
     (fit_calls (snd (snd (run example_library (\<lambda>i. i) True example_failing_experiment))))
     = [(Some 0, (''d1'', ''X1'', ''y1''), (''svc_estimator'', ''svc_grid'')),
        (Some 0, (''d1'', ''X1'', ''y1''), (''tree_estimator'', ''tree_grid'')),
        (Some 0, (''d2'', ''bad'', ''y2''), (''svc_estimator'', ''svc_grid''))]"
proof -
  let ?r = "run example_library (\<lambda>i. i) True example_failing_experiment"
  have d: "datasets example_failing_experiment = Some [(''d1'', ''X1'', ''y1''), (''d2'', ''bad'', ''y2'')]"
    by (simp add: example_failing_experiment_def)
  have cd: "check_datasets example_library [(''d1'', ''X1'', ''y1''), (''d2'', ''bad'', ''y2'')] =
      Inr [(''d1'', ''X1'', ''y1''), (''d2'', ''bad'', ''y2'')]"
    by (simp add: example_library_def)
  have ce: "check_estimators example_library (estimators example_failing_experiment) =
      Inr [''svc_estimator'', ''tree_estimator'']"
    by (simp add: example_library_def example_failing_experiment_def example_experiment_def)
  have cg: "check_param_grids example_library (estimators example_failing_experiment) =
      Inr [''svc_grid'', ''tree_grid'']"
    by (simp add: example_library_def example_failing_experiment_def example_experiment_def)
  have cr: "check_random_states example_library (random_state example_failing_experiment)
      (experiment_repetitions example_failing_experiment) = Inr [Some 0, Some 5]"
    by code_simp
  have r: "?r = (fst ?r, fst (snd ?r), snd (snd ?r))" by simp
  have ok: "fst ?r = Some (LibraryError ''undefined metric'')" by code_simp
  have n: "length (fit_calls (snd (snd ?r))) = 3" by code_simp
  note t = combinations_nested_order [where lib = example_library and amb = "\<lambda>i. i" and hw = True
      and ?self0.0 = example_failing_experiment and raised = "fst ?r" and ?self1.0 = "fst (snd ?r)"
      and obs = "snd (snd ?r)" and given = "[(''d1'', ''X1'', ''y1''), (''d2'', ''bad'', ''y2'')]"
      and ds = "[(''d1'', ''X1'', ''y1''), (''d2'', ''bad'', ''y2'')]"
      and es = "[''svc_estimator'', ''tree_estimator'']" and gs = "[''svc_grid'', ''tree_grid'']"
      and rs = "[Some 0, Some 5]"
      and seeds = "[Some 0, Some (5 :: int)]" and dsets = "[''d1'', ''d2'']"
      and pairs = "[''svc'', ''tree'']" and i = 1 and j = 0 and k = 1]
  note t_nth = t [THEN conjunct2, THEN conjunct2, THEN conjunct1]
  note t_run = t [THEN conjunct2, THEN conjunct2, THEN conjunct2, THEN conjunct2]
  have idx: "(1 :: nat) < length [Some 0, Some (5 :: int)] \<and> (0 :: nat) < length [''d1'', ''d2''] \<and>
     (1 :: nat) < length [''svc'', ''tree'']" by simp
  from t_nth idx have "product3 [Some 0, Some (5 :: int)] [''d1'', ''d2''] [''svc'', ''tree'']
      ! ((1 * length [''d1'', ''d2''] + 0) * length [''svc'', ''tree''] + 1)
     = ([Some 0, Some (5 :: int)] ! 1, [''d1'', ''d2''] ! 0, [''svc'', ''tree''] ! 1)"
    by (rule mp)
  moreover have "(1 * length [''d1'', ''d2''] + 0) * length [''svc'', ''tree''] + 1 = (5 :: nat)"
    by simp
  ultimately have p: "product3 [Some 0, Some (5 :: int)] [''d1'', ''d2''] [''svc'', ''tree''] ! 5
     = (Some 5, ''d1'', ''tree'')" by (simp add: eval_nat_numeral)
  have hyps: "datasets example_failing_experiment = Some [(''d1'', ''X1'', ''y1''), (''d2'', ''bad'', ''y2'')] \<and>
      check_datasets example_library [(''d1'', ''X1'', ''y1''), (''d2'', ''bad'', ''y2'')] =
        Inr [(''d1'', ''X1'', ''y1''), (''d2'', ''bad'', ''y2'')] \<and>
      check_estimators example_library (estimators example_failing_experiment) =
        Inr [''svc_estimator'', ''tree_estimator''] \<and>
      check_param_grids example_library (estimators example_failing_experiment) =
        Inr [''svc_grid'', ''tree_grid''] \<and>
      check_random_states example_library (random_state example_failing_experiment)
        (experiment_repetitions example_failing_experiment) = Inr [Some 0, Some 5] \<and>
      ?r = (fst ?r, fst (snd ?r), snd (snd ?r))"
    using d cd ce cg cr r by (intro conjI)
  from t_run hyps have "map call_combination (fit_calls (snd (snd ?r))) =
      take (length (fit_calls (snd (snd ?r))))
        (product3 [Some 0, Some 5] [(''d1'', ''X1'', ''y1''), (''d2'', ''bad'', ''y2'')]
           (zip [''svc_estimator'', ''tree_estimator''] [''svc_grid'', ''tree_grid'']))"
    by (rule mp)
  then have c: "map call_combination (fit_calls (snd (snd ?r)))
     = [(Some 0, (''d1'', ''X1'', ''y1''), (''svc_estimator'', ''svc_grid'')),
        (Some 0, (''d1'', ''X1'', ''y1''), (''tree_estimator'', ''tree_grid'')),
        (Some 0, (''d2'', ''bad'', ''y2''), (''svc_estimator'', ''svc_grid''))]"
    unfolding n by (simp add: product3_def eval_nat_numeral)
  from idx p ok c show ?thesis by (intro conjI) simp_all
qed

text \<open>
  Claim C3: let the base seed be an integer, let the random states resolved from it all be
  integers, and let \<^verbatim>\<open>fit\<close> be a function of its arguments whenever the splitter it is
  given is seeded (it may draw on the ambient randomness only with an unseeded splitter).
  Then running \<^verbatim>\<open>run\<close> again, on the object as the first run left it or on the object as
  it was, with any other ambient randomness, raises or returns as the first run did and
  leaves the same \<^verbatim>\<open>results_\<close>: the same records in the same order.
\<close>

theorem run_twice_same_results:
  fixes lib :: "('s, 'x, 'o, 'w) library"
  assumes seeded: "random_state self0 = Some base_seed"
    and resolved: "\<And>rs. check_random_states lib (Some base_seed) (experiment_repetitions self0) = Inr rs
                     \<Longrightarrow> None \<notin> set rs"
    and det: "\<And>g X y w w'. split_random_state (gs_cv g) \<noteq> None \<Longrightarrow>
                fit lib g X y w = fit lib g X y w'"
    and first: "run lib amb hw self0 = (raised1, self1, obs1)"
    and second: "run lib amb' hw' self1 = (raised2, self2, obs2)"
    and fresh: "run lib amb' hw' self0 = (raised3, self3, obs3)"
  shows "raised2 = raised1 \<and> results_attr self2 = results_attr self1 \<and>
         raised3 = raised1 \<and> results_attr self3 = results_attr self1"
proof -
  have resolved': "\<And>rs. check_random_states lib (random_state self0) (experiment_repetitions self0) = Inr rs
                     \<Longrightarrow> None \<notin> set rs"
    using resolved seeded by simp
  have conf: "same_configuration self0 self1"
    using run_configuration [where a = self0 and lib = lib and amb = amb and hw = hw] first by simp
  from run_related [where amb = amb and hw = hw and amb' = amb' and hw' = hw', OF conf resolved' det]
    first second
  have "raised2 = raised1 \<and> results_attr self2 = results_attr self1" by auto
  moreover
  from run_related [where amb = amb and hw = hw and amb' = amb' and hw' = hw',
      OF same_configuration_refl [of self0] resolved' det] first fresh
  have "raised3 = raised1 \<and> results_attr self3 = results_attr self1" by auto
  ultimately show ?thesis by simp
qed

theorem run_twice_same_results_witness:
  "random_state example_experiment = Some 5 \<and>
   fst (run example_library (\<lambda>i. i) True example_experiment) = None \<and>
   fst (run example_library (\<lambda>i. i + 100) False
          (fst (snd (run example_library (\<lambda>i. i) True example_experiment)))) = None \<and>
   results_attr (fst (snd (run example_library (\<lambda>i. i + 100) False
          (fst (snd (run example_library (\<lambda>i. i) True example_experiment))))))
     = results_attr (fst (snd (run example_library (\<lambda>i. i) True example_experiment))) \<and>
   results_attr (fst (snd (run example_library (\<lambda>i. i + 100) False example_experiment)))
     = results_attr (fst (snd (run example_library (\<lambda>i. i) True example_experiment))) \<and>
   results_attr (fst (snd (run example_library (\<lambda>i. i) True example_experiment)))
     = Some [(''d1'', ''svc_estimator on X1 seed 0''), (''d1'', ''tree_estimator on X1 seed 0''),
             (''d2'', ''svc_estimator on X2 seed 0''), (''d2'', ''tree_estimator on X2 seed 0''),
             (''d1'', ''svc_estimator on X1 seed 5''), (''d1'', ''tree_estimator on X1 seed 5''),
             (''d2'', ''svc_estimator on X2 seed 5''), (''d2'', ''tree_estimator on X2 seed 5'')] \<and>
   results_attr (fst (snd (run example_library (\<lambda>i. i + 100) False example_unseeded_experiment)))
     \<noteq> results_attr (fst (snd (run example_library (\<lambda>i. i) True example_unseeded_experiment)))"
proof -
  let ?r1 = "run example_library (\<lambda>i. i) True example_experiment"
  let ?r2 = "run example_library (\<lambda>i. i + 100) False (fst (snd ?r1))"
  let ?r3 = "run example_library (\<lambda>i. i + 100) False example_experiment"
  have s: "random_state example_experiment = Some 5"
    by (simp add: example_experiment_def)
  have cr: "check_random_states example_library (Some 5)
      (experiment_repetitions example_experiment) = Inr [Some 0, Some 5]"
    by code_simp
  have res: "None \<notin> set rs"
    if "check_random_states example_library (Some 5)
          (experiment_repetitions example_experiment) = Inr rs" for rs
  proof -
    from that cr have "rs = [Some 0, Some 5]" by simp
    then show ?thesis by simp
  qed
  have det: "fit example_library g X y w = fit example_library g X y w'"
    if "split_random_state (gs_cv g) \<noteq> None" for g X y w w'
    using that by (auto simp: example_library_def)
  have r1: "?r1 = (fst ?r1, fst (snd ?r1), snd (snd ?r1))" by simp
  have r2: "?r2 = (fst ?r2, fst (snd ?r2), snd (snd ?r2))" by simp
  have r3: "?r3 = (fst ?r3, fst (snd ?r3), snd (snd ?r3))" by simp
  note t = run_twice_same_results [OF s res det r1 r2 r3]
  have ok: "fst ?r1 = None" by code_simp
  have v: "results_attr (fst (snd ?r1))
     = Some [(''d1'', ''svc_estimator on X1 seed 0''), (''d1'', ''tree_estimator on X1 seed 0''),
             (''d2'', ''svc_estimator on X2 seed 0''), (''d2'', ''tree_estimator on X2 seed 0''),
             (''d1'', ''svc_estimator on X1 seed 5''), (''d1'', ''tree_estimator on X1 seed 5''),
             (''d2'', ''svc_estimator on X2 seed 5''), (''d2'', ''tree_estimator on X2 seed 5'')]"
    by code_simp
  have ne: "results_attr (fst (snd (run example_library (\<lambda>i. i + 100) False example_unseeded_experiment)))
     \<noteq> results_attr (fst (snd (run example_library (\<lambda>i. i) True example_unseeded_experiment)))"
    by code_simp
  from t have "fst ?r2 = fst ?r1" "results_attr (fst (snd ?r2)) = results_attr (fst (snd ?r1))"
    "results_attr (fst (snd ?r3)) = results_attr (fst (snd ?r1))" by simp_all
  with s ok v ne show ?thesis by (intro conjI) simp_all
qed

text \<open>
  Claim C4: when a call of \<^verbatim>\<open>gscv.fit\<close> (of \<^verbatim>\<open>cross_val_score\<close> in
  \<^verbatim>\<open>BinaryExperiment.run\<close>) raises, \<^verbatim>\<open>run\<close> raises that error, the failing call is the
  last call made, so that it is not made again and no later Combination is evaluated, and
  \<^verbatim>\<open>results_\<close> (\<^verbatim>\<open>cv_scores_\<close>) holds exactly the records of the calls before it, in
  their order. In \<^verbatim>\<open>ExtendedExperiment.run\<close> the calls made are the first Combinations of
  the sequence.
\<close>

theorem failure_propagates:
  fixes lib :: "('s, 'x, 'o, 'w) library" and blib :: "'b binary_library"
  shows
    "(run lib amb hw self0 = (raised, self1, obs) \<and> k < length (fit_calls obs) \<and>
      fit_of lib (fit_calls obs ! k) = Inl e \<longrightarrow>
        raised = Some e \<and> Suc k = length (fit_calls obs) \<and>
        recorded lib (take k (fit_calls obs)) (results_attr self1) \<and>
        (\<exists>given ds es gs rs.
           datasets self0 = Some given \<and> check_datasets lib given = Inr ds \<and>
           check_estimators lib (estimators self0) = Inr es \<and>
           check_param_grids lib (estimators self0) = Inr gs \<and>
           check_random_states lib (random_state self0) (experiment_repetitions self0) = Inr rs \<and>
           map call_combination (fit_calls obs) = take (Suc k) (product3 rs ds (zip es gs)))) \<and>
     (binary_run fs blib b0 = (braised, bst) \<and> j < length (evaluations bst) \<and>
      score_of blib (evaluations bst ! j) = Inl e' \<longrightarrow>
        braised = Some e' \<and> Suc j = length (evaluations bst) \<and>
        scored blib (take j (evaluations bst)) (cv_scores_attr (bself bst)))"
proof (intro conjI impI)
  assume a: "run lib amb hw self0 = (raised, self1, obs) \<and> k < length (fit_calls obs) \<and>
      fit_of lib (fit_calls obs ! k) = Inl e"
  then have "run lib amb hw self0 = (raised, self1, obs)" "k < length (fit_calls obs)"
    "fit_of lib (fit_calls obs ! k) = Inl e" by simp_all
  from run_failure_propagates_aux [OF this]
  show "raised = Some e" "Suc k = length (fit_calls obs)"
    "recorded lib (take k (fit_calls obs)) (results_attr self1)"
    "\<exists>given ds es gs rs.
           datasets self0 = Some given \<and> check_datasets lib given = Inr ds \<and>
           check_estimators lib (estimators self0) = Inr es \<and>
           check_param_grids lib (estimators self0) = Inr gs \<and>
           check_random_states lib (random_state self0) (experiment_repetitions self0) = Inr rs \<and>
           map call_combination (fit_calls obs) = take (Suc k) (product3 rs ds (zip es gs))"
    by blast+
next
  assume "binary_run fs blib b0 = (braised, bst) \<and> j < length (evaluations bst) \<and>
      score_of blib (evaluations bst ! j) = Inl e'"
  then have "binary_run fs blib b0 = (braised, bst)" "j < length (evaluations bst)"
    "score_of blib (evaluations bst ! j) = Inl e'" by simp_all
  from binary_run_failure_propagates_aux [OF this]
  show "braised = Some e'" "Suc j = length (evaluations bst)"
    "scored blib (take j (evaluations bst)) (cv_scores_attr (bself bst))"
    by blast+
qed

theorem failure_propagates_witness:
  "2 < length (fit_calls (snd (snd (run example_library (\<lambda>i. i) True example_failing_experiment)))) \<and>
   fit_of example_library
     (fit_calls (snd (snd (run example_library (\<lambda>i. i) True example_failing_experiment))) ! 2)
     = Inl (LibraryError ''undefined metric'') \<and>
   fst (run example_library (\<lambda>i. i) True example_failing_experiment)
     = Some (LibraryError ''undefined metric'') \<and>
   length (fit_calls (snd (snd (run example_library (\<lambda>i. i) True example_failing_experiment)))) = 3 \<and>
   results_attr (fst (snd (run example_library (\<lambda>i. i) True example_failing_experiment)))
     = Some [(''d1'', ''svc_estimator on X1 seed 0''), (''d1'', ''tree_estimator on X1 seed 0'')] \<and>
   1 < length (evaluations (snd (binary_run example_file_system example_binary_library
                                   example_failing_binary_experiment))) \<and>
   score_of example_binary_library
     (evaluations (snd (binary_run example_file_system example_binary_library
                          example_failing_binary_experiment)) ! 1)
     = Inl (LibraryError ''undefined metric'') \<and>
   fst (binary_run example_file_system example_binary_library example_failing_binary_experiment)
     = Some (LibraryError ''undefined metric'') \<and>
   length (evaluations (snd (binary_run example_file_system example_binary_library
                               example_failing_binary_experiment))) = 2 \<and>
   cv_scores_attr (bself (snd (binary_run example_file_system example_binary_library
                                 example_failing_binary_experiment))) = Some [''0.5'']"
proof -
  let ?r = "run example_library (\<lambda>i. i) True example_failing_experiment"
  let ?b = "binary_run example_file_system example_binary_library example_failing_binary_experiment"
  have k: "2 < length (fit_calls (snd (snd ?r)))" by code_simp
  have f: "fit_of example_library (fit_calls (snd (snd ?r)) ! 2) = Inl (LibraryError ''undefined metric'')"
    by code_simp
  have r: "?r = (fst ?r, fst (snd ?r), snd (snd ?r))" by simp
  have res: "results_attr (fst (snd ?r))
     = Some [(''d1'', ''svc_estimator on X1 seed 0''), (''d1'', ''tree_estimator on X1 seed 0'')]"
    by code_simp
  have j: "1 < length (evaluations (snd ?b))" by code_simp
  have s: "score_of example_binary_library (evaluations (snd ?b) ! 1) = Inl (LibraryError ''undefined metric'')"
    by code_simp
  have b: "?b = (fst ?b, snd ?b)" by simp
  have sc: "cv_scores_attr (bself (snd ?b)) = Some [''0.5'']" by code_simp
  note t = failure_propagates [where lib = example_library and amb = "\<lambda>i. i" and hw = True
      and ?self0.0 = example_failing_experiment and raised = "fst ?r" and ?self1.0 = "fst (snd ?r)"
      and obs = "snd (snd ?r)" and k = 2 and e = "LibraryError ''undefined metric''"
      and fs = example_file_system and blib = example_binary_library
      and ?b0.0 = example_failing_binary_experiment and braised = "fst ?b" and bst = "snd ?b"
      and j = 1 and e' = "LibraryError ''undefined metric''"]
  from t r k f have "fst ?r = Some (LibraryError ''undefined metric'')"
    and "Suc 2 = length (fit_calls (snd (snd ?r)))" by blast+
  moreover from t b j s have "fst ?b = Some (LibraryError ''undefined metric'')"
    and "Suc 1 = length (evaluations (snd ?b))" by blast+
  ultimately show ?thesis using k f j s res sc by simp
qed

text \<open>
  Claim C5: for an integer base seed \<open>s\<close> and a repetition count \<open>n\<close>, line 56 gives
  exactly \<open>n\<close> seeds, the one at index \<open>i\<close> being \<open>s * i\<close>, so that index 0 gives 0
  whatever \<open>s\<close> is; for the base seed \<^verbatim>\<open>None\<close> it gives \<open>n\<close> times \<^verbatim>\<open>None\<close>.
\<close>

theorem initialize_random_states_derivation:
  assumes "0 \<le> n"
  shows "int (length (initialize_random_states (Some s) n)) = n \<and>
         (\<forall>i < nat n. initialize_random_states (Some s) n ! i = Some (s * int i)) \<and>
         (0 < n \<longrightarrow> initialize_random_states (Some s) n ! 0 = Some 0) \<and>
         int (length (initialize_random_states None n)) = n \<and>
         (\<forall>i < nat n. initialize_random_states None n ! i = None)"
  using assms by (simp add: initialize_random_states_def py_range_def py_repeat_def)

theorem initialize_random_states_derivation_witness:
  "(0::int) \<le> 3 \<and>
   int (length (initialize_random_states (Some 7) 3)) = 3 \<and>
   initialize_random_states (Some 7) 3 ! 2 = Some 14 \<and>
   initialize_random_states (Some 7) 3 ! 0 = Some 0 \<and>
   int (length (initialize_random_states None 3)) = 3 \<and>
   initialize_random_states None 3 ! 1 = None"
proof -
  have h: "(0::int) \<le> 3" by simp
  note t = initialize_random_states_derivation [OF h, of 7]
  have two: "(2::nat) < nat 3" and one: "(1::nat) < nat 3" by simp_all
  from t two have a: "initialize_random_states (Some 7) 3 ! 2 = Some (7 * int 2)" by blast
  from t one have b: "initialize_random_states None 3 ! 1 = None" by blast
  from t have c: "initialize_random_states (Some 7) 3 ! 0 = Some 0" by simp
  from t have d: "int (length (initialize_random_states (Some 7) 3)) = 3"
    and e: "int (length (initialize_random_states None 3)) = 3" by blast+
  from a b c d e show ?thesis by simp
qed

text \<open>
  Claim C6 at \<^verbatim>\<open>BinaryExperiment.run\<close>, line 68: the splitter is built as
  \<^verbatim>\<open>StratifiedKFold(n_splits=self.n_splits, random_state=random_state)\<close>, so every
  evaluation of the concrete experiment gets the seed but not the shuffling, whereas every
  call of \<^verbatim>\<open>gscv.fit\<close> in \<^verbatim>\<open>ExtendedExperiment.run\<close> on the concrete experiment gets a
  splitter with \<^verbatim>\<open>shuffle\<close> set and the seed of its Combination, although \<^verbatim>\<open>check_cv\<close>
  of the concrete library builds it unshuffled and unseeded.
\<close>

theorem binary_splitter_not_shuffled:
  "map eval_cv
     (evaluations (snd (binary_run example_file_system example_binary_library example_binary_experiment)))
     = replicate 4 \<lparr>skf_n_splits = 3, skf_shuffle = False, skf_random_state = Some 0\<rparr> \<and>
   map (\<lambda>c. (shuffle (gs_cv (call_gscv c)), split_random_state (gs_cv (call_gscv c))))
     (fit_calls (snd (snd (run example_library (\<lambda>i. i) True example_experiment))))
     = replicate 4 (True, Some 0) @ replicate 4 (True, Some 5)"
  by code_simp

text \<open>
  Claim C7, as stated: a directory without a file that matches the csv pattern makes the
  loading step raise \<^verbatim>\<open>ConfigurationError\<close>. On a directory that holds two files, neither
  of them a csv file, \<^verbatim>\<open>read_csv_dir\<close> returns the empty list, and
  \<^verbatim>\<open>_initialize_parameters\<close> returns with the empty dictionary.
\<close>

theorem no_csv_files_counterexample:
  "listdir example_file_system ''data'' = Inr [''README.md'', ''notes.txt''] \<and>
   filter match_csv [''README.md'', ''notes.txt''] = [] \<and>
   read_csv_dir example_file_system ''data'' = Inr [] \<and>
   fst (initialize_parameters example_file_system example_binary_library example_path_experiment)
     = None \<and>
   binary_datasets
     (snd (initialize_parameters example_file_system example_binary_library example_path_experiment))
     = DatasetsDict []"
  by (simp add: read_csv_dir_def match_csv_def newline_def example_file_system_def
        initialize_parameters_def initialize_rest_def example_path_experiment_def Let_def)

text \<open>
  Claim C7, amended: when the directory can be listed and none of its names matches the
  csv pattern, the loading step raises nothing: \<^verbatim>\<open>read_csv_dir\<close> returns the empty list,
  and \<^verbatim>\<open>BinaryExperiment._initialize_parameters\<close>, given that directory as its datasets,
  returns with the empty dictionary as \<^verbatim>\<open>self.datasets\<close>.
\<close>

theorem no_csv_files_no_error:
  assumes "listdir fs d = Inr names" and "filter match_csv names = []"
  shows "read_csv_dir fs d = Inr [] \<and>
         (binary_datasets b = DatasetsPath d \<and> chdir fs d = None \<longrightarrow>
            fst (initialize_parameters fs lib b) = None \<and>
            binary_datasets (snd (initialize_parameters fs lib b)) = DatasetsDict [])"
  using assms read_csv_dir_no_match initialize_parameters_no_match by blast

theorem no_csv_files_no_error_witness:
  "listdir example_file_system ''data'' = Inr [''README.md'', ''notes.txt''] \<and>
   filter match_csv [''README.md'', ''notes.txt''] = [] \<and>
   binary_datasets example_path_experiment = DatasetsPath ''data'' \<and>
   chdir example_file_system ''data'' = None \<and>
   read_csv_dir example_file_system ''data'' = Inr [] \<and>
   fst (initialize_parameters example_file_system example_binary_library example_path_experiment)
     = None \<and>
   binary_datasets
     (snd (initialize_parameters example_file_system example_binary_library example_path_experiment))
     = DatasetsDict []"
proof -
  have l: "listdir example_file_system ''data'' = Inr [''README.md'', ''notes.txt'']"
    by (simp add: example_file_system_def)
  have m: "filter match_csv [''README.md'', ''notes.txt''] = []"
    by (simp add: match_csv_def newline_def)
  have p: "binary_datasets example_path_experiment = DatasetsPath ''data''"
    by (simp add: example_path_experiment_def)
  have c: "chdir example_file_system ''data'' = None"
    by (simp add: example_file_system_def)
  from no_csv_files_no_error [OF l m, of example_path_experiment example_binary_library] l m p c
  show ?thesis by simp
qed

text \<open>
  Claim C8, as stated: two estimators both named \<^verbatim>\<open>SVC\<close> get the names \<^verbatim>\<open>SVC\<close> and
  \<^verbatim>\<open>SVC1\<close>. The code counts the first occurrence as 1, so the second one gets the
  suffix 2.
\<close>

theorem count_elements_SVC_counterexample:
  "count_elements [''SVC'', ''SVC''] = [''SVC'', ''SVC2''] \<and>
   count_elements [''SVC'', ''SVC''] \<noteq> [''SVC'', ''SVC1'']"
  by (simp add: count_elements_def str_int_def digit_char_def)

text \<open>
  Claim C8, amended: \<^verbatim>\<open>count_elements\<close> keeps the length of the list, leaves the first
  occurrence of a name unchanged and appends to every later occurrence its running
  occurrence count (the k-th occurrence of a name gets \<^verbatim>\<open>str(k)\<close>, k at least 2); two
  equal names give the name and the name followed by 2.
\<close>

theorem count_elements_running_count:
  "length (count_elements es) = length es \<and>
   (i < length es \<longrightarrow>
      count_elements es ! i =
        (if occurrence es i = 1 then es ! i else es ! i @ str_int (int (occurrence es i)))) \<and>
   count_elements [name, name] = [name, name @ ''2'']"
proof (intro conjI impI)
  show "length (count_elements es) = length es"
    by (simp add: count_elements_closed)
next
  assume i: "i < length es"
  have "count_elements es ! i = renamed (es ! i) (occurrence es i)"
    using i by (simp add: count_elements_closed)
  moreover have "0 < occurrence es i" using i by (rule occurrence_pos)
  ultimately show "count_elements es ! i =
        (if occurrence es i = 1 then es ! i else es ! i @ str_int (int (occurrence es i)))"
    by (auto simp: renamed_def)
next
  show "count_elements [name, name] = [name, name @ ''2'']"
    by (simp add: count_elements_def str_int_2)
qed

theorem count_elements_running_count_witness:
  "(3::nat) < length [''SVC'', ''LR'', ''SVC'', ''SVC''] \<and>
   occurrence [''SVC'', ''LR'', ''SVC'', ''SVC''] 3 = 3 \<and>
   count_elements [''SVC'', ''LR'', ''SVC'', ''SVC''] ! 3 = ''SVC3'' \<and>
   occurrence [''SVC'', ''LR'', ''SVC'', ''SVC''] 1 = 1 \<and>
   count_elements [''SVC'', ''LR'', ''SVC'', ''SVC''] ! 1 = ''LR''"
  using count_elements_running_count [of "[''SVC'', ''LR'', ''SVC'', ''SVC'']" 3]
        count_elements_running_count [of "[''SVC'', ''LR'', ''SVC'', ''SVC'']" 1]
  by (simp add: occurrence_def str_int_def digit_char_def)

text \<open>
  Claim C9: line 212 of \<^verbatim>\<open>ResamplingExperiment.run\<close> gives, for every pair of the cross
  product in its order, the list of the classifier alone when the resampler is \<^verbatim>\<open>None\<close>
  and the list of resampler and classifier otherwise. \<^verbatim>\<open>BinaryExperiment.run\<close> does not:
  line 76 assigns the pipeline to \<^verbatim>\<open>clf\<close> itself, so the second dataset of the concrete
  experiment is evaluated with the pipeline of the oversampler and the previous pipeline;
  and with \<^verbatim>\<open>None\<close> as the oversampling method, line 72 raises before line 75 tests it,
  and nothing is evaluated.
\<close>

theorem resampler_classifier_pairs:
  "resampling_estimators rs cs =
     concat (map (\<lambda>r. map (\<lambda>c. if fst (snd r) = None then [c] else [r, c]) cs) rs) \<and>
   map eval_estimator
     (evaluations (snd (binary_run example_file_system example_binary_library example_binary_experiment)))
     = [Pipeline [Stage ''SMOTE#0'', Stage ''LR#0''],
        Pipeline [Stage ''SMOTE#0'', Pipeline [Stage ''SMOTE#0'', Stage ''LR#0'']],
        Pipeline [Stage ''SMOTE#0'', Stage ''LR#0''],
        Pipeline [Stage ''SMOTE#0'', Pipeline [Stage ''SMOTE#0'', Stage ''LR#0'']]] \<and>
   fst (binary_run example_file_system example_binary_library example_none_experiment)
     = Some (AttributeError ''set_params'') \<and>
   evaluations (snd (binary_run example_file_system example_binary_library example_none_experiment))
     = []"
proof -
  have "map eval_estimator
     (evaluations (snd (binary_run example_file_system example_binary_library example_binary_experiment)))
     = [Pipeline [Stage ''SMOTE#0'', Stage ''LR#0''],
        Pipeline [Stage ''SMOTE#0'', Pipeline [Stage ''SMOTE#0'', Stage ''LR#0'']],
        Pipeline [Stage ''SMOTE#0'', Stage ''LR#0''],
        Pipeline [Stage ''SMOTE#0'', Pipeline [Stage ''SMOTE#0'', Stage ''LR#0'']]]"
    by code_simp
  moreover have
    "fst (binary_run example_file_system example_binary_library example_none_experiment)
       = Some (AttributeError ''set_params'')"
    by code_simp
  moreover have
    "evaluations (snd (binary_run example_file_system example_binary_library example_none_experiment))
       = []"
    by code_simp
  ultimately show ?thesis using resampling_estimators_nested by (intro conjI)
qed

text \<open>
  Claim C10, as stated: with an empty dataset collection \<^verbatim>\<open>run\<close> returns without raising.
  Only the absent attribute is guarded (lines 118 and 119); with an empty list \<^verbatim>\<open>run\<close>
  goes on to the validators, and it raises when one of them does.
\<close>

theorem run_empty_datasets_counterexample:
  "datasets example_empty_experiment = Some [] \<and>
   fst (run example_strict_library (\<lambda>i. i) True example_empty_experiment)
     = Some (LibraryError ''malformed estimator'')"
  by code_simp

text \<open>
  Claim C10, amended: when the \<^verbatim>\<open>datasets\<close> attribute is absent, \<^verbatim>\<open>run\<close> returns at once
  without raising and leaves the object as it is, \<^verbatim>\<open>results_\<close> included. When the
  validated dataset collection is empty and the other validators return, \<^verbatim>\<open>run\<close> returns
  without raising, never calls \<^verbatim>\<open>gscv.fit\<close>, and leaves \<^verbatim>\<open>results_\<close> as the empty list.
  When \<^verbatim>\<open>check_datasets\<close> or \<^verbatim>\<open>check_estimators\<close> raises, \<^verbatim>\<open>run\<close> raises that error.
\<close>

theorem run_absent_or_empty_datasets:
  "(datasets self0 = None \<longrightarrow> run lib amb hw self0 = (None, self0, initial_trace hw)) \<and>
   (datasets self0 = Some given \<and> check_datasets lib given = Inr [] \<and>
    check_estimators lib (estimators self0) = Inr es \<and>
    check_param_grids lib (estimators self0) = Inr gs \<and>
    check_random_states lib (random_state self0) (experiment_repetitions self0) = Inr rs \<longrightarrow>
      run lib amb hw self0 =
        (None,
         self0\<lparr>estimators_attr := Some es, param_grids_attr := Some gs,
                random_states_attr := Some rs, results_attr := Some []\<rparr>,
         (initial_trace hw)\<lparr>max_value := Some 0\<rparr>)) \<and>
   (datasets self0 = Some given \<and> check_datasets lib given = Inl e \<longrightarrow>
      run lib amb hw self0 = (Some e, self0, initial_trace hw)) \<and>
   (datasets self0 = Some given \<and> check_datasets lib given = Inr ds \<and>
    check_estimators lib (estimators self0) = Inl e \<longrightarrow>
      run lib amb hw self0 = (Some e, self0, initial_trace hw))"
proof (intro conjI impI)
  assume "datasets self0 = None"
  then show "run lib amb hw self0 = (None, self0, initial_trace hw)"
    by (rule run_absent)
next
  assume "datasets self0 = Some given \<and> check_datasets lib given = Inr [] \<and>
    check_estimators lib (estimators self0) = Inr es \<and>
    check_param_grids lib (estimators self0) = Inr gs \<and>
    check_random_states lib (random_state self0) (experiment_repetitions self0) = Inr rs"
  then show "run lib amb hw self0 =
        (None,
         self0\<lparr>estimators_attr := Some es, param_grids_attr := Some gs,
                random_states_attr := Some rs, results_attr := Some []\<rparr>,
         (initial_trace hw)\<lparr>max_value := Some 0\<rparr>)"
    by (elim conjE) (rule run_empty_datasets; assumption)
next
  assume "datasets self0 = Some given \<and> check_datasets lib given = Inl e"
  then show "run lib amb hw self0 = (Some e, self0, initial_trace hw)"
    by (elim conjE) (rule run_validator_raises(1); assumption)
next
  assume "datasets self0 = Some given \<and> check_datasets lib given = Inr ds \<and>
    check_estimators lib (estimators self0) = Inl e"
  then show "run lib amb hw self0 = (Some e, self0, initial_trace hw)"
    by (elim conjE) (rule run_validator_raises(2); assumption)
qed

theorem run_absent_or_empty_datasets_witness:
  "datasets (example_experiment\<lparr>datasets := None\<rparr>) = None \<and>
   run example_library (\<lambda>i. i) True (example_experiment\<lparr>datasets := None\<rparr>)
     = (None, example_experiment\<lparr>datasets := None\<rparr>, initial_trace True) \<and>
   datasets example_empty_experiment = Some [] \<and>
   check_datasets example_library [] = Inr [] \<and>
   fst (run example_library (\<lambda>i. i) True example_empty_experiment) = None \<and>
   results_attr (fst (snd (run example_library (\<lambda>i. i) True example_empty_experiment))) = Some [] \<and>
   fit_calls (snd (snd (run example_library (\<lambda>i. i) True example_empty_experiment))) = [] \<and>
   check_estimators example_strict_library (estimators example_empty_experiment)
     = Inl (LibraryError ''malformed estimator'') \<and>
   run example_strict_library (\<lambda>i. i) True example_empty_experiment
     = (Some (LibraryError ''malformed estimator''), example_empty_experiment, initial_trace True)"
proof -
  let ?stripped = "example_experiment\<lparr>datasets := None\<rparr>"
  have a: "datasets ?stripped = None" by simp
  have d: "datasets example_empty_experiment = Some []"
    by (simp add: example_empty_experiment_def)
  have cd: "check_datasets example_library [] = Inr []"
    and cd': "check_datasets example_strict_library [] = Inr []"
    by (simp_all add: example_library_def example_strict_library_def)
  have ce: "check_estimators example_library (estimators example_empty_experiment) =
      Inr [''svc_estimator'', ''tree_estimator'']"
    by (simp add: example_library_def example_empty_experiment_def example_experiment_def)
  have cg: "check_param_grids example_library (estimators example_empty_experiment) =
      Inr [''svc_grid'', ''tree_grid'']"
    by (simp add: example_library_def example_empty_experiment_def example_experiment_def)
  have cr: "check_random_states example_library (random_state example_empty_experiment)
      (experiment_repetitions example_empty_experiment) = Inr [Some 0, Some 5]"
    by code_simp
  have cs: "check_estimators example_strict_library (estimators example_empty_experiment)
     = Inl (LibraryError ''malformed estimator'')"
    by (simp add: example_strict_library_def)
  from run_absent_or_empty_datasets [of ?stripped example_library "\<lambda>i. i" True] a
  have 1: "run example_library (\<lambda>i. i) True ?stripped = (None, ?stripped, initial_trace True)"
    by blast
  from run_absent_or_empty_datasets [of example_empty_experiment example_library "\<lambda>i. i" True
      "[]" "[''svc_estimator'', ''tree_estimator'']" "[''svc_grid'', ''tree_grid'']" "[Some 0, Some 5]"]
    d cd ce cg cr
  have 2: "run example_library (\<lambda>i. i) True example_empty_experiment =
        (None,
         example_empty_experiment\<lparr>estimators_attr := Some [''svc_estimator'', ''tree_estimator''],
                param_grids_attr := Some [''svc_grid'', ''tree_grid''],
                random_states_attr := Some [Some 0, Some 5], results_attr := Some []\<rparr>,
         (initial_trace True)\<lparr>max_value := Some 0\<rparr>)"
    by blast
  from run_absent_or_empty_datasets [of example_empty_experiment example_strict_library "\<lambda>i. i" True
      "[]" _ _ _ "LibraryError ''malformed estimator''" "[]"] d cd' cs
  have 3: "run example_strict_library (\<lambda>i. i) True example_empty_experiment
     = (Some (LibraryError ''malformed estimator''), example_empty_experiment, initial_trace True)"
    by blast
  from a d cd cs 1 3 show ?thesis
    unfolding 2 by (simp add: initial_trace_def)
qed

end
